theory Spec2Isabelle
  imports Complex_Main "HOL-Library.Word" "HOL-Library.Sublist" "HOL-Library.Multiset"
begin

unbundle bit_operations_syntax

section \<open>The ranking engine (services/aichat/pkg/bm25.go)\<close>

subsection \<open>Library functions taken as parameters\<close>

text \<open>
  \<^verbatim>\<open>tokenize\<close> calls the prose tokenizer and Go's \<^verbatim>\<open>strings.ToLower\<close> and
  \<^verbatim>\<open>strings.TrimSpace\<close>. None of them is code of the repository, so all three are
  parameters of the model: \<open>NewDocument\<close> gives the texts of the tokens of a document, or
  \<open>None\<close> where \<^verbatim>\<open>prose.NewDocument\<close> returns an error.
\<close>

record textlib =
  NewDocument :: "string \<Rightarrow> string list option"
  ToLower :: "string \<Rightarrow> string"
  TrimSpace :: "string \<Rightarrow> string"

text \<open>
  A concrete instance for evaluating the model: tokens are the maximal runs of characters
  other than the blank, letters \<open>A\<close> to \<open>Z\<close> are lowered, blanks are trimmed at both ends.
\<close>

fun split_blank :: "string \<Rightarrow> string \<Rightarrow> string list" where
  "split_blank cur [] = (if cur = [] then [] else [cur])"
| "split_blank cur (c # cs) =
     (if c = CHR '' '' then (if cur = [] then split_blank [] cs else cur # split_blank [] cs)
      else split_blank (cur @ [c]) cs)"

definition lower_char :: "char \<Rightarrow> char" where
  "lower_char c =
     (let n = (of_char c :: nat) in if 65 \<le> n \<and> n \<le> 90 then char_of (n + 32) else c)"

definition ascii_lib :: textlib where
  "ascii_lib = \<lparr> NewDocument = (\<lambda>text. Some (split_blank [] text)),
                 ToLower = map lower_char,
                 TrimSpace = (\<lambda>s. rev (dropWhile (\<lambda>c. c = CHR '' '') (rev (dropWhile (\<lambda>c. c = CHR '' '') s)))) \<rparr>"

subsection \<open>The calculator\<close>

text \<open>
  Go's \<^verbatim>\<open>int\<close> is modelled by \<open>int\<close> (the values are lengths and counts of slices in
  memory) and \<^verbatim>\<open>float64\<close> by \<open>real\<close>: the model computes the exact value of each
  formula, not its rounding. A \<^verbatim>\<open>map[string]int\<close> is a partial map; reading a missing
  key gives 0, as in Go.
\<close>

record BM25Calculator =
  documents :: "string list"
  vocabulary :: "string \<rightharpoonup> int"
  docLengths :: "int list"
  avgDocLength :: real
  docFreq :: "string \<rightharpoonup> int"
  totalDocs :: int
  bm25_k1 :: real
  bm25_b :: real
  bm25Cache :: "string \<rightharpoonup> real"

definition lookup0 :: "(string \<rightharpoonup> int) \<Rightarrow> string \<Rightarrow> int" where
  "lookup0 m w = (case m w of None \<Rightarrow> 0 | Some v \<Rightarrow> v)"

definition incr :: "(string \<rightharpoonup> int) \<Rightarrow> string \<Rightarrow> (string \<rightharpoonup> int)" where
  "incr m w = m(w \<mapsto> lookup0 m w + 1)"

definition tokenize :: "textlib \<Rightarrow> string \<Rightarrow> string list" where
  "tokenize lib text =
     (case NewDocument lib text of
        None \<Rightarrow> []
      | Some toks \<Rightarrow> filter (\<lambda>word. length word > 1) (map (\<lambda>tok. ToLower lib (TrimSpace lib tok)) toks))"

text \<open>\<^verbatim>\<open>for _, word := range words { m[word]++ }\<close>\<close>

fun count_words :: "(string \<rightharpoonup> int) \<Rightarrow> string list \<Rightarrow> (string \<rightharpoonup> int)" where
  "count_words m [] = m"
| "count_words m (word # rest) = count_words (incr m word) rest"

text \<open>
  \<^verbatim>\<open>for word := range uniqueWords { calc.docFreq[word]++ }\<close>, where the keys of
  \<^verbatim>\<open>uniqueWords\<close> are the words of the document: each of them is incremented once,
  whatever the order of the iteration.
\<close>

definition incr_each :: "(string \<rightharpoonup> int) \<Rightarrow> string list \<Rightarrow> (string \<rightharpoonup> int)" where
  "incr_each m words = (\<lambda>w. if w \<in> set words then Some (lookup0 m w + 1) else m w)"

fun buildVocabulary_loop ::
  "textlib \<Rightarrow> nat \<Rightarrow> string list \<Rightarrow> BM25Calculator \<times> int \<Rightarrow> BM25Calculator \<times> int" where
  "buildVocabulary_loop lib i [] (calc, totalLength) = (calc, totalLength)"
| "buildVocabulary_loop lib i (doc # rest) (calc, totalLength) =
     (let words = tokenize lib doc;
          docLength = int (length words)
      in buildVocabulary_loop lib (Suc i) rest
           (calc\<lparr> docLengths := (docLengths calc)[i := docLength],
                  vocabulary := count_words (vocabulary calc) words,
                  docFreq := incr_each (docFreq calc) words \<rparr>,
            totalLength + docLength))"

definition buildVocabulary :: "textlib \<Rightarrow> BM25Calculator \<Rightarrow> BM25Calculator" where
  "buildVocabulary lib calc =
     (case buildVocabulary_loop lib 0 (documents calc) (calc, 0) of
        (calc1, totalLength) \<Rightarrow>
          (if length (documents calc1) > 0
           then calc1\<lparr> avgDocLength := real_of_int totalLength / real (length (documents calc1)) \<rparr>
           else calc1)
          \<lparr> totalDocs := int (length (documents calc1)) \<rparr>)"

definition NewBM25Calculator :: "textlib \<Rightarrow> string list \<Rightarrow> BM25Calculator" where
  "NewBM25Calculator lib docs =
     buildVocabulary lib
       \<lparr> documents = docs, vocabulary = Map.empty, docLengths = replicate (length docs) 0,
         avgDocLength = 0, docFreq = Map.empty, totalDocs = int (length docs),
         bm25_k1 = 1.5, bm25_b = 0.75, bm25Cache = Map.empty \<rparr>"

definition AddDocument :: "textlib \<Rightarrow> BM25Calculator \<Rightarrow> string \<Rightarrow> BM25Calculator" where
  "AddDocument lib calc doc =
     (let docs = documents calc @ [doc];
          words = tokenize lib doc;
          docLength = int (length words);
          lens = docLengths calc @ [docLength];
          totalLength = sum_list lens
      in calc\<lparr> documents := docs,
               docLengths := lens,
               avgDocLength := real_of_int totalLength / real (length lens),
               vocabulary := count_words (vocabulary calc) words,
               docFreq := incr_each (docFreq calc) words,
               totalDocs := int (length docs),
               bm25Cache := Map.empty \<rparr>)"

definition SetParameters :: "BM25Calculator \<Rightarrow> real \<Rightarrow> real \<Rightarrow> BM25Calculator" where
  "SetParameters calc k1 b = calc\<lparr> bm25_k1 := k1, bm25_b := b, bm25Cache := Map.empty \<rparr>"

definition calculateIDF :: "BM25Calculator \<Rightarrow> string \<Rightarrow> real" where
  "calculateIDF calc word =
     (if totalDocs calc = 0 then 0
      else let df0 = lookup0 (docFreq calc) word;
               df = (if df0 = 0 then 1 else df0);
               idf = ln (real_of_int (totalDocs calc - df) + 0.5) / (real_of_int df + 0.5)
           in max 0 idf)"

text \<open>
  The scoring loop over the words of the query, the same in \<^verbatim>\<open>calculateBM25Score\<close>
  (with \<open>avgLength\<close> the calculator's average) and in \<^verbatim>\<open>CalculateQuerySimilarity\<close>.
\<close>

fun score_loop ::
  "BM25Calculator \<Rightarrow> (string \<rightharpoonup> int) \<Rightarrow> int \<Rightarrow> real \<Rightarrow> string list \<Rightarrow> real \<Rightarrow> real" where
  "score_loop calc docWordFreq docLength avgLength [] score = score"
| "score_loop calc docWordFreq docLength avgLength (word # rest) score =
     (let idf = calculateIDF calc word;
          tf = real_of_int (lookup0 docWordFreq word)
      in if tf > 0
         then (let numerator = tf * (bm25_k1 calc + 1);
                   denominator = tf + bm25_k1 calc *
                     (1 - bm25_b calc + bm25_b calc * real_of_int docLength / avgLength)
               in score_loop calc docWordFreq docLength avgLength rest
                    (score + idf * numerator / denominator))
         else score_loop calc docWordFreq docLength avgLength rest score)"

text \<open>Indexing a slice out of its range panics: the result is \<open>None\<close> there.\<close>

definition calculateBM25Score ::
  "textlib \<Rightarrow> BM25Calculator \<Rightarrow> string list \<Rightarrow> int \<Rightarrow> real option" where
  "calculateBM25Score lib calc queryWords docIndex =
     (if docIndex < 0 \<or> int (length (docLengths calc)) \<le> docIndex then None
      else if int (length (documents calc)) \<le> docIndex then None
      else let docLength = docLengths calc ! nat docIndex;
               docWords = tokenize lib (documents calc ! nat docIndex);
               docWordFreq = count_words Map.empty docWords
           in Some (score_loop calc docWordFreq docLength (avgDocLength calc) queryWords 0))"

text \<open>
  \<^verbatim>\<open>Calculate\<close>: the score of each document of the corpus, stored under the text of the
  document.
\<close>

fun Calculate_loop ::
  "textlib \<Rightarrow> BM25Calculator \<Rightarrow> string list \<Rightarrow> nat \<Rightarrow> string list \<Rightarrow> (string \<rightharpoonup> real) \<Rightarrow>
   (string \<rightharpoonup> real) option" where
  "Calculate_loop lib calc queryWords i [] result = Some result"
| "Calculate_loop lib calc queryWords i (doc # rest) result =
     (case calculateBM25Score lib calc queryWords (int i) of
        None \<Rightarrow> None
      | Some score \<Rightarrow> Calculate_loop lib calc queryWords (Suc i) rest (result(doc \<mapsto> score)))"

definition Calculate :: "textlib \<Rightarrow> BM25Calculator \<Rightarrow> string \<Rightarrow> (string \<rightharpoonup> real) option" where
  "Calculate lib calc text =
     Calculate_loop lib calc (tokenize lib text) 0 (documents calc) Map.empty"

definition CalculateQuerySimilarity :: "textlib \<Rightarrow> BM25Calculator \<Rightarrow> string \<Rightarrow> string \<Rightarrow> real" where
  "CalculateQuerySimilarity lib calc query document =
     (let queryWords = tokenize lib query;
          docWords = tokenize lib document;
          docLength = int (length docWords);
          avgLength = (if avgDocLength calc = 0 then real_of_int docLength else avgDocLength calc);
          docWordFreq = count_words Map.empty docWords
      in score_loop calc docWordFreq docLength avgLength queryWords 0)"

text \<open>The formula of the specification for the inverse document frequency.\<close>

definition idf_spec :: "int \<Rightarrow> int \<Rightarrow> real" where
  "idf_spec N df = max 0 (ln ((real_of_int (N - df) + 0.5) / (real_of_int df + 0.5)))"

text \<open>
  The states the exported operations can produce: a calculator built by
  \<^verbatim>\<open>NewBM25Calculator\<close>, then changed by \<^verbatim>\<open>AddDocument\<close> and \<^verbatim>\<open>SetParameters\<close>.
\<close>

inductive reachable :: "textlib \<Rightarrow> BM25Calculator \<Rightarrow> bool" for lib where
  reach_New: "reachable lib (NewBM25Calculator lib docs)"
| reach_Add: "reachable lib calc \<Longrightarrow> reachable lib (AddDocument lib calc doc)"
| reach_Set: "reachable lib calc \<Longrightarrow> reachable lib (SetParameters calc k1 b)"


subsection \<open>Scores in float64 arithmetic\<close>

text \<open>
  The definitions above compute with exact real numbers. A \<^verbatim>\<open>float64\<close> also has the
  special values \<open>+Inf\<close>, \<open>-Inf\<close> and \<open>NaN\<close>, which the scoring loop can reach: a product
  beyond the largest finite value overflows to an infinity, and an infinity divided by an
  infinity, or multiplied by zero, is \<open>NaN\<close>. The scoring loop is therefore modelled a
  second time on values with these three special cases. Of IEEE 754 arithmetic the model
  keeps the range and the special values, not the rounding: a result within the range is
  its exact value. A zero is the positive zero.
\<close>

datatype float64 = Finite real | PosInf | NegInf | NaN

definition max_float64 :: real where
  \<comment> \<open>\<^verbatim>\<open>math.MaxFloat64\<close>, the largest finite value\<close>
  "max_float64 = 2 ^ 1024 - 2 ^ 971"

definition to_float64 :: "real \<Rightarrow> float64" where
  \<comment> \<open>the \<^verbatim>\<open>float64\<close> for an exact result: an infinity when it is out of range\<close>
  "to_float64 x =
     (if max_float64 < x then PosInf else if x < - max_float64 then NegInf else Finite x)"

fun f64_neg :: "float64 \<Rightarrow> float64" where
  "f64_neg (Finite x) = Finite (- x)"
| "f64_neg PosInf = NegInf"
| "f64_neg NegInf = PosInf"
| "f64_neg NaN = NaN"

fun f64_add :: "float64 \<Rightarrow> float64 \<Rightarrow> float64" where
  "f64_add (Finite x) (Finite y) = to_float64 (x + y)"
| "f64_add NaN v = NaN"
| "f64_add v NaN = NaN"
| "f64_add PosInf NegInf = NaN"
| "f64_add NegInf PosInf = NaN"
| "f64_add PosInf v = PosInf"
| "f64_add v PosInf = PosInf"
| "f64_add NegInf v = NegInf"
| "f64_add v NegInf = NegInf"

definition f64_sub :: "float64 \<Rightarrow> float64 \<Rightarrow> float64" where
  "f64_sub u v = f64_add u (f64_neg v)"

text \<open>The sign of a value that is not \<open>NaN\<close>: \<open>True\<close> for a negative value.\<close>

fun f64_negative :: "float64 \<Rightarrow> bool" where
  "f64_negative (Finite x) = (x < 0)"
| "f64_negative PosInf = False"
| "f64_negative NegInf = True"
| "f64_negative NaN = False"

definition f64_inf :: "bool \<Rightarrow> float64" where
  "f64_inf negative = (if negative then NegInf else PosInf)"

fun f64_mul :: "float64 \<Rightarrow> float64 \<Rightarrow> float64" where
  "f64_mul (Finite x) (Finite y) = to_float64 (x * y)"
| "f64_mul NaN v = NaN"
| "f64_mul v NaN = NaN"
| "f64_mul (Finite x) v = (if x = 0 then NaN else f64_inf (f64_negative v \<noteq> (x < 0)))"
| "f64_mul u (Finite y) = (if y = 0 then NaN else f64_inf (f64_negative u \<noteq> (y < 0)))"
| "f64_mul u v = f64_inf (f64_negative u \<noteq> f64_negative v)"

fun f64_div :: "float64 \<Rightarrow> float64 \<Rightarrow> float64" where
  "f64_div (Finite x) (Finite y) =
     (if y = 0 then (if x = 0 then NaN else f64_inf (x < 0)) else to_float64 (x / y))"
| "f64_div NaN v = NaN"
| "f64_div v NaN = NaN"
| "f64_div (Finite x) v = Finite 0"
| "f64_div u (Finite y) = f64_inf (f64_negative u \<noteq> (y < 0))"
| "f64_div u v = NaN"

text \<open>\<^verbatim>\<open>u > v\<close>, which is false when either side is \<open>NaN\<close>.\<close>

fun f64_greater :: "float64 \<Rightarrow> float64 \<Rightarrow> bool" where
  "f64_greater (Finite x) (Finite y) = (x > y)"
| "f64_greater NaN v = False"
| "f64_greater v NaN = False"
| "f64_greater PosInf v = (v \<noteq> PosInf)"
| "f64_greater u NegInf = (u \<noteq> NegInf)"
| "f64_greater u v = False"

text \<open>\<^verbatim>\<open>v >= 0\<close>: a finite value that is not negative, or \<open>+Inf\<close>.\<close>

fun f64_nonneg :: "float64 \<Rightarrow> bool" where
  "f64_nonneg (Finite x) = (0 \<le> x)"
| "f64_nonneg PosInf = True"
| "f64_nonneg NegInf = False"
| "f64_nonneg NaN = False"

text \<open>
  The scoring loop of \<^verbatim>\<open>calculateBM25Score\<close>, each operation in float64 arithmetic. The
  parameters, the average length and the inverse document frequency are read as
  \<^verbatim>\<open>float64\<close> values (in a reachable calculator \<^verbatim>\<open>calculateIDF\<close> takes the logarithm of a
  number that is at least one half and divides by one that is at least 1.5, so that its
  result is finite).
\<close>

fun score_loop_float64 ::
  "BM25Calculator \<Rightarrow> (string \<rightharpoonup> int) \<Rightarrow> int \<Rightarrow> float64 \<Rightarrow> string list \<Rightarrow> float64 \<Rightarrow> float64" where
  "score_loop_float64 calc docWordFreq docLength avgLength [] score = score"
| "score_loop_float64 calc docWordFreq docLength avgLength (word # rest) score =
     (let idf = to_float64 (calculateIDF calc word);
          tf = to_float64 (real_of_int (lookup0 docWordFreq word));
          k1 = to_float64 (bm25_k1 calc);
          b = to_float64 (bm25_b calc)
      in if f64_greater tf (Finite 0)
         then (let numerator = f64_mul tf (f64_add k1 (Finite 1));
                   denominator = f64_add tf
                     (f64_mul k1
                        (f64_add (f64_sub (Finite 1) b)
                           (f64_div (f64_mul b (to_float64 (real_of_int docLength))) avgLength)))
               in score_loop_float64 calc docWordFreq docLength avgLength rest
                    (f64_add score (f64_div (f64_mul idf numerator) denominator)))
         else score_loop_float64 calc docWordFreq docLength avgLength rest score)"

definition calculateBM25Score_float64 ::
  "textlib \<Rightarrow> BM25Calculator \<Rightarrow> string list \<Rightarrow> int \<Rightarrow> float64 option" where
  "calculateBM25Score_float64 lib calc queryWords docIndex =
     (if docIndex < 0 \<or> int (length (docLengths calc)) \<le> docIndex then None
      else if int (length (documents calc)) \<le> docIndex then None
      else let docLength = docLengths calc ! nat docIndex;
               docWords = tokenize lib (documents calc ! nat docIndex);
               docWordFreq = count_words Map.empty docWords
           in Some (score_loop_float64 calc docWordFreq docLength
                      (to_float64 (avgDocLength calc)) queryWords (Finite 0)))"


subsection \<open>ExtractKeywords\<close>

text \<open>
  \<^verbatim>\<open>ExtractKeywords\<close> collects one entry per key of \<^verbatim>\<open>wordFreq\<close> in the order in which
  \<^verbatim>\<open>range\<close> visits the map, which the Go runtime chooses anew at each iteration: the
  order is the argument \<open>keys\<close> of the model, and \<open>range_order m keys\<close> says that \<open>keys\<close>
  is an order in which \<^verbatim>\<open>range\<close> can visit \<open>m\<close> (each key once). \<^verbatim>\<open>sort.Slice\<close> is a
  library function and an argument too; \<open>sort_slice_ok\<close> is what its documentation
  promises for the comparison the code passes: the result is a rearrangement of the slice,
  in which no element is followed by one that is less.
\<close>

type_synonym wordScore = "string \<times> real"

definition range_order :: "(string \<rightharpoonup> int) \<Rightarrow> string list \<Rightarrow> bool" where
  "range_order m keys = (distinct keys \<and> set keys = dom m)"

definition score_greater :: "wordScore \<Rightarrow> wordScore \<Rightarrow> bool" where
  \<comment> \<open>\<^verbatim>\<open>func(i, j int) bool { return wordScores[i].score > wordScores[j].score }\<close>\<close>
  "score_greater p q = (snd p > snd q)"

definition sort_slice_ok ::
  "((wordScore \<Rightarrow> wordScore \<Rightarrow> bool) \<Rightarrow> wordScore list \<Rightarrow> wordScore list) \<Rightarrow> bool" where
  "sort_slice_ok sort_slice =
     (\<forall>xs. mset (sort_slice score_greater xs) = mset xs \<and>
           sorted_wrt (\<lambda>p q. \<not> score_greater q p) (sort_slice score_greater xs))"

definition keyword_score :: "BM25Calculator \<Rightarrow> (string \<rightharpoonup> int) \<Rightarrow> nat \<Rightarrow> string \<Rightarrow> real" where
  "keyword_score calc wordFreq n word =
     (let freq = lookup0 wordFreq word;
          idf = calculateIDF calc word;
          tf = real_of_int freq / real n
      in idf * tf * ln (real_of_int (totalDocs calc + 1)))"

definition ExtractKeywords ::
  "textlib \<Rightarrow> ((wordScore \<Rightarrow> wordScore \<Rightarrow> bool) \<Rightarrow> wordScore list \<Rightarrow> wordScore list) \<Rightarrow>
   BM25Calculator \<Rightarrow> string list \<Rightarrow> string \<Rightarrow> int \<Rightarrow> string list" where
  "ExtractKeywords lib sort_slice calc keys text topN =
     (let words = tokenize lib text;
          wordFreq = count_words Map.empty words;
          wordScores = map (\<lambda>word. (word, keyword_score calc wordFreq (length words) word)) keys;
          wordScores = sort_slice score_greater wordScores
      in map fst (take (nat topN) wordScores))"

text \<open>
  The insertion sort that \<^verbatim>\<open>sort.Slice\<close> runs on a slice of at most 12 elements: each
  element in turn is swapped leftwards while it is less than its left neighbour. The
  part already sorted is kept reversed, its last element first.
\<close>

fun sift_left :: "('a \<Rightarrow> 'a \<Rightarrow> bool) \<Rightarrow> 'a list \<Rightarrow> 'a \<Rightarrow> 'a list" where
  "sift_left lt [] x = [x]"
| "sift_left lt (y # ys) x = (if lt x y then y # sift_left lt ys x else x # y # ys)"

definition insertionSort :: "('a \<Rightarrow> 'a \<Rightarrow> bool) \<Rightarrow> 'a list \<Rightarrow> 'a list" where
  "insertionSort lt xs = rev (foldl (sift_left lt) [] xs)"

text \<open>The score \<^verbatim>\<open>ExtractKeywords\<close> gives to a word of a text.\<close>

definition text_score :: "textlib \<Rightarrow> BM25Calculator \<Rightarrow> string \<Rightarrow> string \<Rightarrow> real" where
  "text_score lib calc text word =
     keyword_score calc (count_words Map.empty (tokenize lib text)) (length (tokenize lib text)) word"


section \<open>Tool-call support of a model (services/aichat/internal/model)\<close>

text \<open>
  A \<^verbatim>\<open>map[string]bool\<close> is a partial map; reading a missing key gives \<^verbatim>\<open>false\<close>.
  A name is present in a list when the map holds \<^verbatim>\<open>true\<close> for it (the code stores no
  other value).
\<close>

definition lookup_bool :: "(string \<rightharpoonup> bool) \<Rightarrow> string \<Rightarrow> bool" where
  "lookup_bool m k = (case m k of None \<Rightarrow> False | Some v \<Rightarrow> v)"

text \<open>
  The first version of the agent keeps the two lists as package-level map literals; the
  function reads them without a check. The maps are arguments of the model.
\<close>

definition unsupportedToolCallModels_names :: "string list" where
  "unsupportedToolCallModels_names =
    [''deepseek-r1'', ''deepseek-v3'', ''deepseek-math'', ''llama2'', ''llama2:7b'',
         ''llama2:13b'', ''llama2:70b'', ''codellama'', ''codellama:7b'', ''codellama:13b'',
         ''codellama:34b'', ''codellama:70b'', ''stablelm2'', ''stablelm2:1.6b'',
         ''stablelm2:12b'', ''qwen2:0.5b'', ''qwen2:1.5b'', ''qwen2:7b'', ''gemma2:2b'',
         ''gemma2:9b'', ''phi3'', ''phi3:mini'', ''phi3:medium'', ''mixtral:8x7b'',
         ''mixtral:8x22b'', ''gpt-3.5-turbo-instruct'', ''text-davinci-003'', ''dall-e'',
         ''claude-instant-1'', ''text-embedding-ada-002'', ''text-embedding-3-small'',
         ''text-embedding-3-large'']"

definition supportedToolCallModels_names :: "string list" where
  "supportedToolCallModels_names =
    [''gpt-3.5-turbo'', ''gpt-3.5-turbo-0125'', ''gpt-3.5-turbo-1106'', ''gpt-4'',
         ''gpt-4-0613'', ''gpt-4-0125-preview'', ''gpt-4-turbo'', ''gpt-4-turbo-2024-04-09'',
         ''gpt-4o'', ''gpt-4o-mini'', ''claude-2'', ''claude-2.1'', ''claude-3-opus'',
         ''claude-3-sonnet'', ''claude-3-haiku'', ''claude-3-5-sonnet'', ''llama3.1'',
         ''llama3.1:8b'', ''llama3.1:8b-instruct'', ''llama3.1:70b'', ''llama3.1:70b-instruct'',
         ''llama3.1:405b'', ''llama3.1:405b-instruct'', ''llama3.2'', ''llama3.2:1b'',
         ''llama3.2:3b'', ''llama3.2:1b-instruct'', ''llama3.2:3b-instruct'',
         ''mistral:7b-instruct-v0.2'', ''mistral:7b-instruct-v0.3'',
         ''mistral-small:22b-instruct-v0.1'', ''mistral-small:22b-instruct-v0.2'',
         ''mistral-small3.1'', ''mistral-small3.1:22b'', ''mistral-small3.1:22b-instruct'',
         ''mistral-nemo'', ''mistral-nemo:12b-instruct'', ''deepseek-chat'', ''deepseek-coder'',
         ''deepseek-v2-chat'', ''deepseek-v2-coder'', ''gemini-pro'', ''gemini-pro-1.5'',
         ''gemini-1.5-flash'', ''gemini-1.5-pro'', ''qwen2:7b-instruct'', ''qwen2:14b-instruct'',
         ''qwen2:32b-instruct'', ''qwen2:72b-instruct'', ''qwen2.5:7b-instruct'',
         ''qwen2.5:14b-instruct'', ''qwen2.5:32b-instruct'', ''qwen2.5:72b-instruct'',
         ''qwen2.5-coder:7b-instruct'', ''qwen2.5-coder:14b-instruct'',
         ''qwen2.5-coder:32b-instruct'', ''codestral:22b-instruct'',
         ''codestral:mamba-7b-instruct'', ''gemma2:2b-instruct'', ''gemma2:9b-instruct'',
         ''gemma2:27b-instruct'', ''phi3:mini-instruct'', ''phi3:medium-instruct'',
         ''phi3:vision-instruct'', ''qwen-plus'', ''qwen-turbo'', ''qwen-max'', ''glm-4'',
         ''glm-4v'', ''moonshot-v1-8k'', ''moonshot-v1-32k'', ''moonshot-v1-128k'']"

definition map_literal :: "string list \<Rightarrow> (string \<rightharpoonup> bool)" where
  "map_literal names = map_of (map (\<lambda>n. (n, True)) names)"

definition isModelSupportToolCall_literal ::
  "(string \<rightharpoonup> bool) \<Rightarrow> (string \<rightharpoonup> bool) \<Rightarrow> string \<Rightarrow> bool" where
  "isModelSupportToolCall_literal unsupported supported modelName =
     (if lookup_bool unsupported modelName then False
      else if lookup_bool supported modelName then True
      else False)"

text \<open>
  The later version fills the two maps from the configuration
  (\<^verbatim>\<open>initModelSupportConfig\<close>) and checks each for \<^verbatim>\<open>nil\<close> before reading it: a map
  is \<open>None\<close> while it is \<^verbatim>\<open>nil\<close>.
\<close>

definition isModelSupportToolCall ::
  "(string \<rightharpoonup> bool) option \<Rightarrow> (string \<rightharpoonup> bool) option \<Rightarrow> string \<Rightarrow> bool" where
  "isModelSupportToolCall unsupported supported modelName =
     (if (case unsupported of None \<Rightarrow> False | Some u \<Rightarrow> lookup_bool u modelName) then False
      else if (case supported of None \<Rightarrow> False | Some s \<Rightarrow> lookup_bool s modelName) then True
      else False)"

text \<open>A name is in a list when the map exists and holds \<^verbatim>\<open>true\<close> for it.\<close>

definition in_list :: "(string \<rightharpoonup> bool) option \<Rightarrow> string \<Rightarrow> bool" where
  "in_list m k = (case m of None \<Rightarrow> False | Some m' \<Rightarrow> m' k = Some True)"


section \<open>The chat service (services/aichat/internal/service, services/aichat/cmd)\<close>

subsection \<open>Messages and the stream reader\<close>

text \<open>
  A message of the eino schema: its role, its content and the names of the functions of
  its tool calls. An error value is the text of its message.
\<close>

datatype role = System | User | Assistant | Tool

record message =
  Role :: role
  Content :: string
  ToolCalls :: "string list"

type_synonym goerror = string

definition role_text :: "role \<Rightarrow> string" where
  "role_text r = (case r of System \<Rightarrow> ''system'' | User \<Rightarrow> ''user''
                  | Assistant \<Rightarrow> ''assistant'' | Tool \<Rightarrow> ''tool'')"

definition UserMessage :: "string \<Rightarrow> message" where
  "UserMessage text = \<lparr> Role = User, Content = text, ToolCalls = [] \<rparr>"

definition AssistantMessage :: "string \<Rightarrow> string list \<Rightarrow> message" where
  "AssistantMessage text calls = \<lparr> Role = Assistant, Content = text, ToolCalls = calls \<rparr>"

text \<open>
  The stream reader of the generation backend is a library object. It is modelled as a
  source that hands out the messages of a finite list, then reports \<open>final\<close> (the
  end-of-stream signal \<^verbatim>\<open>io.EOF\<close>, or another error) at every later call, and that
  counts the calls of \<^verbatim>\<open>Recv\<close> and of \<^verbatim>\<open>Close\<close>.
\<close>

datatype recv_error = EOF | RecvFailed goerror

record streamReader =
  pending :: "message list"
  final :: recv_error
  recvCalls :: nat
  closeCalls :: nat

definition Recv :: "streamReader \<Rightarrow> (recv_error + message) \<times> streamReader" where
  "Recv rd =
     (case pending rd of
        [] \<Rightarrow> (Inl (final rd), rd\<lparr> recvCalls := recvCalls rd + 1 \<rparr>)
      | m # ms \<Rightarrow> (Inr m, rd\<lparr> pending := ms, recvCalls := recvCalls rd + 1 \<rparr>))"

definition Close :: "streamReader \<Rightarrow> streamReader" where
  "Close rd = rd\<lparr> closeCalls := closeCalls rd + 1 \<rparr>"

subsection \<open>The collaborators of the service\<close>

text \<open>
  The cache, the history filter (\<^verbatim>\<open>chat.FilterRelevantHistory\<close>, with the embedder it is
  given), the template and the agent are fields of the service or functions of other
  packages; each is an argument of the model. \<open>SaveChatHistory\<close> returns \<open>None\<close> for
  \<^verbatim>\<open>nil\<close>. Of the log only the errors written to it are kept.
\<close>

record collaborators =
  LoadChatHistory :: "string \<Rightarrow> goerror + message list"
  SaveChatHistory :: "string \<Rightarrow> message list \<Rightarrow> goerror option"
  FilterRelevantHistory :: "message list \<Rightarrow> string \<Rightarrow> int \<Rightarrow> message list"
  Format :: "(string \<times> string) list \<Rightarrow> goerror + message list"
  Stream :: "message list \<Rightarrow> goerror + streamReader"

text \<open>The bytes of the style given to the template, and of the prefix of a tool-call line.\<close>

definition style_text :: string where
  "style_text = map char_of ([231, 167, 175, 230, 158, 129, 227, 128, 129, 230, 184, 169, 230, 154, 150, 228, 184, 148, 228, 184, 147, 228, 184, 154] :: nat list)"

definition tool_prefix :: string where
  "tool_prefix = map char_of ([91, 232, 176, 131, 231, 148, 168, 229, 183, 165, 229, 133, 183, 58, 32] :: nat list)"

text \<open>What a call of the service leaves: the values returned, the reader once the
  deferred \<^verbatim>\<open>Close\<close> has run (if a stream was opened), the history handed to
  \<^verbatim>\<open>SaveChatHistory\<close> (if it was called), and the errors logged.\<close>

record outcome =
  returned :: "string \<times> goerror option"
  reader_after :: "streamReader option"
  saved :: "message list option"
  logged :: "goerror list"

text \<open>\<^verbatim>\<open>chatHistoryStr\<close>: a line \<^verbatim>\<open>role: content\<close> for each message with a content.\<close>

fun history_lines :: "message list \<Rightarrow> string" where
  "history_lines [] = []"
| "history_lines (msg # rest) =
     (if Content msg \<noteq> [] then role_text (Role msg) @ '': '' @ Content msg @ [CHR 0x0A] @ history_lines rest
      else history_lines rest)"

definition template_variables :: "string \<Rightarrow> string \<Rightarrow> (string \<times> string) list" where
  "template_variables userInput chatHistoryStr =
     [(''role'', ''PaiChat''), (''style'', style_text), (''question'', userInput),
      (''chat_history'', chatHistoryStr)]"

subsection \<open>ProcessUserInput\<close>

text \<open>
  \<^verbatim>\<open>for { message, err := streamReader.Recv(); if err != nil { break }; ... }\<close>: the loop ends
  at the first error of \<^verbatim>\<open>Recv\<close>, which the reader reports once its messages are used up.
\<close>

function collect_loop :: "streamReader \<Rightarrow> string \<Rightarrow> string \<times> streamReader" where
  "collect_loop rd fullContent =
     (case Recv rd of
        (Inl err, rd') \<Rightarrow> (fullContent, rd')
      | (Inr message, rd') \<Rightarrow> collect_loop rd' (fullContent @ Content message))"
  by pat_completeness auto
termination
  by (relation "measure (\<lambda>(rd, fullContent). length (pending rd))")
     (auto simp: Recv_def split: list.splits)

declare collect_loop.simps [simp del]

definition ProcessUserInput :: "collaborators \<Rightarrow> string \<Rightarrow> string \<Rightarrow> outcome" where
  "ProcessUserInput s userInput userID =
     (let (chatHistory, log1) =
            (case LoadChatHistory s userID of Inl err \<Rightarrow> ([], [err]) | Inr h \<Rightarrow> (h, []));
          filteredHistory = FilterRelevantHistory s chatHistory userInput 50;
          chatHistoryStr = history_lines filteredHistory
      in case Format s (template_variables userInput chatHistoryStr) of
           Inl err \<Rightarrow>
             \<lparr> returned = ([], Some err), reader_after = None, saved = None, logged = log1 @ [err] \<rparr>
         | Inr messages \<Rightarrow>
             (case Stream s messages of
                Inl err \<Rightarrow>
                  \<lparr> returned = ([], Some err), reader_after = None, saved = None,
                    logged = log1 @ [err] \<rparr>
              | Inr streamReader \<Rightarrow>
                  (case collect_loop streamReader [] of
                     (resultContent, rd) \<Rightarrow>
                       (let chatHistory = chatHistory @
                              [UserMessage userInput, AssistantMessage resultContent []];
                            log2 = (case SaveChatHistory s userID chatHistory of
                                      Some err \<Rightarrow> [err] | None \<Rightarrow> [])
                        in \<lparr> returned = (resultContent, None),
                             reader_after = Some (Close rd),
                             saved = Some chatHistory,
                             logged = log1 @ log2 \<rparr>))))"

text \<open>
  Names for two values of a call of the service: the history it starts from (empty when
  loading fails) and what the template makes of the filtered history and the question.
\<close>

definition loaded_history :: "collaborators \<Rightarrow> string \<Rightarrow> message list" where
  "loaded_history s userID = (case LoadChatHistory s userID of Inl err \<Rightarrow> [] | Inr h \<Rightarrow> h)"

definition prompt_of :: "collaborators \<Rightarrow> string \<Rightarrow> string \<Rightarrow> goerror + message list" where
  "prompt_of s userInput userID =
     Format s (template_variables userInput
       (history_lines (FilterRelevantHistory s (loaded_history s userID) userInput 50)))"

subsection \<open>ProcessUserInputStream\<close>

text \<open>
  The loop polls \<^verbatim>\<open>controlCallback\<close> at the start of each iteration; what it returns
  then, \<open>(isPaused, isStopped)\<close>, is chosen by the caller between the iterations, so a
  run of the loop is driven by the list of these answers. The loop is a step function on
  its state: still running with the reader and the text accumulated so far, left by
  \<^verbatim>\<open>break\<close>, or left by \<^verbatim>\<open>return "", err\<close> when the stream callback failed. A run that
  is still \<open>Running\<close> after all the answers has not left the loop.
\<close>

datatype loop_state =
    Running streamReader string
  | Broke streamReader string
  | Failed goerror streamReader

text \<open>The reader a state of the streaming loop holds.\<close>

fun reader_of :: "loop_state \<Rightarrow> streamReader" where
  "reader_of (Running rd fullContent) = rd"
| "reader_of (Broke rd fullContent) = rd"
| "reader_of (Failed err rd) = rd"

text \<open>The tool calls of one message: a line for each, given to the callback and appended.\<close>

fun tool_calls_loop ::
  "(string \<Rightarrow> bool \<Rightarrow> goerror option) \<Rightarrow> string list \<Rightarrow> string \<Rightarrow> goerror + string" where
  "tool_calls_loop streamCallback [] fullContent = Inr fullContent"
| "tool_calls_loop streamCallback (name # rest) fullContent =
     (let toolContent = tool_prefix @ name @ '']''
      in case streamCallback toolContent True of
           Some err \<Rightarrow> Inl err
         | None \<Rightarrow> tool_calls_loop streamCallback rest (fullContent @ toolContent))"

fun stream_step ::
  "(string \<Rightarrow> bool \<Rightarrow> goerror option) \<Rightarrow> loop_state \<Rightarrow> bool \<times> bool \<Rightarrow> loop_state" where
  "stream_step streamCallback (Running rd fullContent) (isPaused, isStopped) =
     (if isStopped then Broke rd fullContent
      else if \<not> isPaused then
        (case Recv rd of
           (Inl err, rd') \<Rightarrow> Broke rd' fullContent
         | (Inr message, rd') \<Rightarrow>
             (if length (ToolCalls message) > 0 then
                (case tool_calls_loop streamCallback (ToolCalls message) fullContent of
                   Inl err \<Rightarrow> Failed err rd'
                 | Inr fullContent' \<Rightarrow> Running rd' fullContent')
              else
                (case streamCallback (Content message) False of
                   Some err \<Rightarrow> Failed err rd'
                 | None \<Rightarrow> Running rd' (fullContent @ Content message))))
      else Running rd fullContent)"
| "stream_step streamCallback st ctl = st"

definition stream_loop ::
  "(string \<Rightarrow> bool \<Rightarrow> goerror option) \<Rightarrow> (bool \<times> bool) list \<Rightarrow> streamReader \<Rightarrow> loop_state" where
  "stream_loop streamCallback controls rd = foldl (stream_step streamCallback) (Running rd []) controls"

text \<open>
  The result is \<open>None\<close> when the loop is still running after the last answer of
  \<open>controls\<close>. \<^verbatim>\<open>defer streamReader.Close()\<close> runs at every return after the stream
  was opened.
\<close>

definition ProcessUserInputStream ::
  "collaborators \<Rightarrow> string \<Rightarrow> string \<Rightarrow> (string \<Rightarrow> bool \<Rightarrow> goerror option) \<Rightarrow>
   (bool \<times> bool) list \<Rightarrow> outcome option" where
  "ProcessUserInputStream s userInput userID streamCallback controls =
     (let (chatHistory, log1) =
            (case LoadChatHistory s userID of Inl err \<Rightarrow> ([], [err]) | Inr h \<Rightarrow> (h, []));
          filteredHistory = FilterRelevantHistory s chatHistory userInput 50;
          chatHistoryStr = history_lines filteredHistory
      in case Format s (template_variables userInput chatHistoryStr) of
           Inl err \<Rightarrow>
             Some \<lparr> returned = ([], Some err), reader_after = None, saved = None,
                    logged = log1 @ [err] \<rparr>
         | Inr messages \<Rightarrow>
             (case Stream s messages of
                Inl err \<Rightarrow>
                  Some \<lparr> returned = ([], Some err), reader_after = None, saved = None,
                         logged = log1 @ [err] \<rparr>
              | Inr streamReader \<Rightarrow>
                  (case stream_loop streamCallback controls streamReader of
                     Running rd fullContent \<Rightarrow> None
                   | Failed err rd \<Rightarrow>
                       Some \<lparr> returned = ([], Some err), reader_after = Some (Close rd),
                              saved = None, logged = log1 \<rparr>
                   | Broke rd resultContent \<Rightarrow>
                       (let chatHistory = chatHistory @
                              [UserMessage userInput, AssistantMessage resultContent []];
                            log2 = (case SaveChatHistory s userID chatHistory of
                                      Some err \<Rightarrow> [err] | None \<Rightarrow> [])
                        in Some \<lparr> returned = (resultContent, None),
                                  reader_after = Some (Close rd),
                                  saved = Some chatHistory,
                                  logged = log1 @ log2 \<rparr>))))"

subsection \<open>The streaming loop of the command-line client (cmd/main.go)\<close>

text \<open>
  The loop of \<^verbatim>\<open>main\<close> selects on \<^verbatim>\<open>stopChan\<close>, reads the flag \<^verbatim>\<open>isPaused\<close> and, when it
  is set, waits for \<^verbatim>\<open>pauseChan\<close> or \<^verbatim>\<open>stopChan\<close>. What the listening goroutine has made
  available when the loop looks is chosen outside the loop; an iteration is driven by one
  of four observations:
  \<^item> \<open>StopReady\<close>: the outer \<^verbatim>\<open>select\<close> receives from \<^verbatim>\<open>stopChan\<close>;
  \<^item> \<open>NotPaused\<close>: the default branch runs and reads \<^verbatim>\<open>isPaused = false\<close>;
  \<^item> \<open>PausedThenPauseChan\<close>: the flag is set and the inner \<^verbatim>\<open>select\<close> receives from
    \<^verbatim>\<open>pauseChan\<close> (\<^verbatim>\<open>continue\<close>);
  \<^item> \<open>PausedThenStopChan\<close>: the flag is set and the inner \<^verbatim>\<open>select\<close> receives from
    \<^verbatim>\<open>stopChan\<close>.
  In the default branch, \<^verbatim>\<open>break\<close> after an error of \<^verbatim>\<open>Recv\<close> leaves the \<^verbatim>\<open>select\<close>
  statement it stands in, not the \<^verbatim>\<open>for\<close> loop: the loop goes on. Only the two stop
  branches reach \<^verbatim>\<open>endStream\<close>, after an explicit \<^verbatim>\<open>streamReader.Close()\<close>.
\<close>

datatype main_obs = StopReady | NotPaused | PausedThenPauseChan | PausedThenStopChan

datatype main_state =
    Streaming streamReader string
  | EndStream streamReader string

fun main_step :: "main_state \<Rightarrow> main_obs \<Rightarrow> main_state" where
  "main_step (Streaming rd fullContent) StopReady = EndStream (Close rd) fullContent"
| "main_step (Streaming rd fullContent) NotPaused =
     (case Recv rd of
        (Inl err, rd') \<Rightarrow> Streaming rd' fullContent
      | (Inr message, rd') \<Rightarrow> Streaming rd' (fullContent @ Content message))"
| "main_step (Streaming rd fullContent) PausedThenPauseChan = Streaming rd fullContent"
| "main_step (Streaming rd fullContent) PausedThenStopChan = EndStream (Close rd) fullContent"
| "main_step (EndStream rd fullContent) obs = EndStream rd fullContent"

definition main_stream_loop :: "main_obs list \<Rightarrow> streamReader \<Rightarrow> main_state" where
  "main_stream_loop observations rd = foldl main_step (Streaming rd []) observations"

text \<open>
  One turn of \<^verbatim>\<open>main\<close>, from the call of \<^verbatim>\<open>stream.Stream\<close> on: when it fails the turn is
  skipped; otherwise \<^verbatim>\<open>defer streamReader.Close()\<close> is registered, inside the \<^verbatim>\<open>for\<close>
  loop of the turns, and the streaming loop runs. The readers with a deferred
  \<^verbatim>\<open>Close\<close> are collected, the latest first; the deferred calls run when \<^verbatim>\<open>main\<close>
  returns, after the user has typed \<^verbatim>\<open>exit\<close>. A turn whose loop has not reached
  \<^verbatim>\<open>endStream\<close> within its observations gives \<open>None\<close>.
\<close>

fun main_turns ::
  "(string \<times> (goerror + streamReader) \<times> main_obs list) list \<Rightarrow> message list \<Rightarrow>
   streamReader list \<Rightarrow> (message list \<times> streamReader list) option" where
  "main_turns [] chatHistory deferred = Some (chatHistory, deferred)"
| "main_turns ((userInput, Inl err, observations) # rest) chatHistory deferred =
     main_turns rest chatHistory deferred"
| "main_turns ((userInput, Inr streamReader, observations) # rest) chatHistory deferred =
     (case main_stream_loop observations streamReader of
        Streaming rd fullContent \<Rightarrow> None
      | EndStream rd resultContent \<Rightarrow>
          main_turns rest
            (chatHistory @ [UserMessage userInput, AssistantMessage resultContent []])
            (rd # deferred))"

definition main_run ::
  "(string \<times> (goerror + streamReader) \<times> main_obs list) list \<Rightarrow>
   (message list \<times> streamReader list) option" where
  "main_run turns =
     (case main_turns turns [] [] of
        None \<Rightarrow> None
      | Some (chatHistory, deferred) \<Rightarrow> Some (chatHistory, map Close deferred))"

subsection \<open>The history filter\<close>

text \<open>
  Modelled from the spec: \<^verbatim>\<open>chat.FilterRelevantHistory\<close> (package
  \<^verbatim>\<open>weave/services/aichat/internal/chat\<close>) is called by the service and is not among the
  sources. Section 4.2 of the specification: every message of the history is scored
  against the query by the active strategy (\<open>relevance\<close>, semantic or lexical); the
  highest-scoring messages are retained, up to \<open>budget\<close> of them (a count of messages),
  and put back into chronological order. Messages are taken by their positions; among
  equal scores the earlier message ranks first.
\<close>

definition HistoryFilter ::
  "(string \<Rightarrow> message \<Rightarrow> real) \<Rightarrow> message list \<Rightarrow> string \<Rightarrow> nat \<Rightarrow> message list" where
  "HistoryFilter relevance history query budget =
     (let ranked = sort_key (\<lambda>i. - relevance query (history ! i)) [0..<length history];
          retained = take budget ranked
      in map (\<lambda>i. history ! i) (sort retained))"


section \<open>The base64 encoder of the mail service (services/email/email_service.go)\<close>

text \<open>
  The input string is its bytes (\<^verbatim>\<open>[]byte(input)\<close>); \<^verbatim>\<open>uint\<close> is a 64-bit word. The
  output is written byte by byte, each byte a character of the alphabet or \<open>=\<close>.
\<close>

definition base64Chars :: string where
  "base64Chars = ''ABCDEFGHIJKLMNOPQRSTUVWXYZabcdefghijklmnopqrstuvwxyz0123456789+/''"

definition triplet_at :: "8 word list \<Rightarrow> nat \<Rightarrow> nat \<Rightarrow> 8 word" where
  \<comment> \<open>\<^verbatim>\<open>triplet[j]\<close> after the inner loop: \<^verbatim>\<open>data[i+j]\<close> when \<^verbatim>\<open>i+j < n\<close>, else the zero of \<^verbatim>\<open>make\<close>\<close>
  "triplet_at data i j = (if i + j < length data then data ! (i + j) else 0)"

text \<open>The value of \<^verbatim>\<open>total\<close> in the loop body, for the three bytes of the triplet.\<close>

definition total_of :: "8 word \<Rightarrow> 8 word \<Rightarrow> 8 word \<Rightarrow> 64 word" where
  "total_of x y z = push_bit 16 (ucast x) OR push_bit 8 (ucast y) OR ucast z"

function base64Encode_loop :: "8 word list \<Rightarrow> nat \<Rightarrow> string \<Rightarrow> string" where
  "base64Encode_loop data i result =
     (if i < length data then
        (let n = length data;
             a = push_bit 16 (ucast (triplet_at data i 0) :: 64 word);
             b = push_bit 8 (ucast (triplet_at data i 1) :: 64 word);
             c = (ucast (triplet_at data i 2) :: 64 word);
             total = a OR b OR c;
             result = result @ [base64Chars ! unat (drop_bit 18 total AND 0x3F)];
             result = result @ [base64Chars ! unat (drop_bit 12 total AND 0x3F)];
             result = (if i + 1 < n then result @ [base64Chars ! unat (drop_bit 6 total AND 0x3F)]
                       else result @ [CHR ''='']);
             result = (if i + 2 < n then result @ [base64Chars ! unat (total AND 0x3F)]
                       else result @ [CHR ''=''])
         in base64Encode_loop data (i + 3) result)
      else result)"
  by pat_completeness auto
termination
  by (relation "measure (\<lambda>(data, i, result). length data - i)") auto

declare base64Encode_loop.simps [simp del]

definition base64Encode :: "8 word list \<Rightarrow> string" where
  "base64Encode input = base64Encode_loop input 0 []"

subsection \<open>The encoding of RFC 4648, and a reference decoder\<close>

text \<open>
  Section 4 of RFC 4648: each group of three bytes is read as four 6-bit numbers, each
  the index of a character of the alphabet; a final group of one byte gives two characters
  and \<open>==\<close>, a final group of two bytes three characters and \<open>=\<close>, the missing bits
  being zero.
\<close>

text \<open>The 24 bits of three bytes, cut into four groups of 6 bits.\<close>

definition sextet1 :: "8 word \<Rightarrow> 8 word" where
  "sextet1 x = drop_bit 2 x"

definition sextet2 :: "8 word \<Rightarrow> 8 word \<Rightarrow> 8 word" where
  "sextet2 x y = push_bit 4 (take_bit 2 x) OR drop_bit 4 y"

definition sextet3 :: "8 word \<Rightarrow> 8 word \<Rightarrow> 8 word" where
  "sextet3 y z = push_bit 2 (take_bit 4 y) OR drop_bit 6 z"

definition sextet4 :: "8 word \<Rightarrow> 8 word" where
  "sextet4 z = take_bit 6 z"

definition sextets :: "8 word \<Rightarrow> 8 word \<Rightarrow> 8 word \<Rightarrow> 8 word list" where
  "sextets x y z = [sextet1 x, sextet2 x y, sextet3 y z, sextet4 z]"

definition alphabet_char :: "8 word \<Rightarrow> char" where
  "alphabet_char s = base64Chars ! unat s"

fun rfc4648_encode :: "8 word list \<Rightarrow> string" where
  "rfc4648_encode [] = []"
| "rfc4648_encode [x] = map alphabet_char (take 2 (sextets x 0 0)) @ ''==''"
| "rfc4648_encode [x, y] = map alphabet_char (take 3 (sextets x y 0)) @ ''=''"
| "rfc4648_encode (x # y # z # rest) = map alphabet_char (sextets x y z) @ rfc4648_encode rest"

fun index_of :: "char \<Rightarrow> string \<Rightarrow> nat option" where
  "index_of c [] = None"
| "index_of c (d # ds) = (if c = d then Some 0 else map_option Suc (index_of c ds))"

text \<open>
  The reference decoder: four characters give three bytes; padding is accepted in the
  last group only; a character outside the alphabet, or a length that is not a multiple
  of four, is an error (\<open>None\<close>).
\<close>

definition decode_group :: "nat \<Rightarrow> nat \<Rightarrow> nat \<Rightarrow> nat \<Rightarrow> 8 word list" where
  \<comment> \<open>four indices, each below 64, give 24 bits: three bytes\<close>
  "decode_group i1 i2 i3 i4 =
     (let s1 = (of_nat i1 :: 8 word); s2 = (of_nat i2 :: 8 word);
          s3 = (of_nat i3 :: 8 word); s4 = (of_nat i4 :: 8 word)
      in [push_bit 2 s1 OR drop_bit 4 s2, push_bit 4 s2 OR drop_bit 2 s3, push_bit 6 s3 OR s4])"

fun rfc4648_decode :: "string \<Rightarrow> 8 word list option" where
  "rfc4648_decode [] = Some []"
| "rfc4648_decode [c1, c2, c3, c4] =
     (case (index_of c1 base64Chars, index_of c2 base64Chars) of
        (Some i1, Some i2) \<Rightarrow>
          (if c3 = CHR ''='' \<and> c4 = CHR ''='' then Some (take 1 (decode_group i1 i2 0 0))
           else (case index_of c3 base64Chars of
                   Some i3 \<Rightarrow>
                     (if c4 = CHR ''='' then Some (take 2 (decode_group i1 i2 i3 0))
                      else (case index_of c4 base64Chars of
                              Some i4 \<Rightarrow> Some (decode_group i1 i2 i3 i4)
                            | None \<Rightarrow> None))
                 | None \<Rightarrow> None))
      | _ \<Rightarrow> None)"
| "rfc4648_decode (c1 # c2 # c3 # c4 # rest) =
     (case (index_of c1 base64Chars, index_of c2 base64Chars,
            index_of c3 base64Chars, index_of c4 base64Chars) of
        (Some i1, Some i2, Some i3, Some i4) \<Rightarrow>
          map_option (\<lambda>bytes. decode_group i1 i2 i3 i4 @ bytes) (rfc4648_decode rest)
      | _ \<Rightarrow> None)"
| "rfc4648_decode _ = None"

section \<open>Properties of the ranking engine\<close>

subsection \<open>The statistics built from a corpus\<close>

lemma buildVocabulary_loop_eq:
  "i + length docs \<le> length (docLengths calc) \<Longrightarrow>
   buildVocabulary_loop lib i docs (calc, t) =
     (calc\<lparr> docLengths := take i (docLengths calc) @ map (\<lambda>d. int (length (tokenize lib d))) docs
                              @ drop (i + length docs) (docLengths calc),
            vocabulary := foldl (\<lambda>m d. count_words m (tokenize lib d)) (vocabulary calc) docs,
            docFreq := foldl (\<lambda>m d. incr_each m (tokenize lib d)) (docFreq calc) docs \<rparr>,
      t + sum_list (map (\<lambda>d. int (length (tokenize lib d))) docs))"
proof (induction docs arbitrary: i calc t)
  case Nil
  then show ?case by simp
next
  case (Cons d docs)
  have i: "i < length (docLengths calc)" using Cons.prems by simp
  have upd: "take (Suc i) ((docLengths calc)[i := v]) = take i (docLengths calc) @ [v]" for v
    using i by (simp add: take_Suc_conv_app_nth)
  show ?case
    using Cons.prems by (simp add: Cons.IH Let_def upd)
qed

lemma NewBM25Calculator_eq:
  "NewBM25Calculator lib docs =
     \<lparr> documents = docs,
       vocabulary = foldl (\<lambda>m d. count_words m (tokenize lib d)) Map.empty docs,
       docLengths = map (\<lambda>d. int (length (tokenize lib d))) docs,
       avgDocLength = (if docs = [] then 0
                       else real_of_int (sum_list (map (\<lambda>d. int (length (tokenize lib d))) docs))
                            / real (length docs)),
       docFreq = foldl (\<lambda>m d. incr_each m (tokenize lib d)) Map.empty docs,
       totalDocs = int (length docs),
       bm25_k1 = 1.5, bm25_b = 0.75, bm25Cache = Map.empty \<rparr>"
  by (simp add: NewBM25Calculator_def buildVocabulary_def buildVocabulary_loop_eq)

lemma AddDocument_New:
  "AddDocument lib (NewBM25Calculator lib docs) doc = NewBM25Calculator lib (docs @ [doc])"
  by (simp add: NewBM25Calculator_eq AddDocument_def Let_def)

text \<open>
  Every reachable calculator is the one built from its documents, with its own parameters.
\<close>

lemma reachable_eq:
  "reachable lib calc \<Longrightarrow>
   calc = (NewBM25Calculator lib (documents calc))\<lparr> bm25_k1 := bm25_k1 calc, bm25_b := bm25_b calc \<rparr>"
proof (induction rule: reachable.induct)
  case (reach_New docs)
  show ?case by (simp add: NewBM25Calculator_eq)
next
  case (reach_Add calc doc)
  have "AddDocument lib calc doc =
        AddDocument lib ((NewBM25Calculator lib (documents calc))
                           \<lparr> bm25_k1 := bm25_k1 calc, bm25_b := bm25_b calc \<rparr>) doc"
    using reach_Add.IH by simp
  also have "\<dots> = (NewBM25Calculator lib (documents calc @ [doc]))
                     \<lparr> bm25_k1 := bm25_k1 calc, bm25_b := bm25_b calc \<rparr>"
    by (simp add: NewBM25Calculator_eq AddDocument_def Let_def)
  finally have eq: "AddDocument lib calc doc =
      (NewBM25Calculator lib (documents calc @ [doc]))
        \<lparr> bm25_k1 := bm25_k1 calc, bm25_b := bm25_b calc \<rparr>" .
  have d: "documents (AddDocument lib calc doc) = documents calc @ [doc]"
    by (simp add: AddDocument_def Let_def)
  have k: "bm25_k1 (AddDocument lib calc doc) = bm25_k1 calc"
          "bm25_b (AddDocument lib calc doc) = bm25_b calc"
    by (simp_all add: AddDocument_def Let_def)
  show ?case unfolding d k by (rule eq)
next
  case (reach_Set calc k1 b)
  have "SetParameters calc k1 b =
        SetParameters ((NewBM25Calculator lib (documents calc))
                         \<lparr> bm25_k1 := bm25_k1 calc, bm25_b := bm25_b calc \<rparr>) k1 b"
    using reach_Set.IH by simp
  then show ?case by (simp add: SetParameters_def NewBM25Calculator_eq)
qed

lemma tokenize_ascii_aa_bb:
  "tokenize ascii_lib ''aa'' = [''aa'']" "tokenize ascii_lib ''bb'' = [''bb'']"
  by (simp_all add: tokenize_def ascii_lib_def lower_char_def)

subsection \<open>The inverse document frequency\<close>

text \<open>
  C1. The specification gives IDF(term) = max(0, ln((N - df + 0.5) / (df + 0.5))). The code
  computes \<^verbatim>\<open>math.Log(float64(N-df)+0.5) / (float64(df) + 0.5)\<close>: the logarithm of the
  numerator alone, divided by \<open>df + 0.5\<close>. On the corpus of the two documents \<open>aa\<close> and
  \<open>bb\<close> (N = 2) the term \<open>aa\<close> has df = 1: the code returns ln(3/2) / (3/2), which is
  positive, where the formula of the specification gives 0.
\<close>

theorem calculateIDF_misplaced_division:
  "totalDocs (NewBM25Calculator ascii_lib [''aa'', ''bb'']) = 2
   \<and> lookup0 (docFreq (NewBM25Calculator ascii_lib [''aa'', ''bb''])) ''aa'' = 1
   \<and> calculateIDF (NewBM25Calculator ascii_lib [''aa'', ''bb'']) ''aa'' = ln (3 / 2) / (3 / 2)
   \<and> idf_spec 2 1 = 0
   \<and> calculateIDF (NewBM25Calculator ascii_lib [''aa'', ''bb'']) ''aa'' \<noteq> idf_spec 2 1"
  by (simp add: NewBM25Calculator_eq tokenize_ascii_aa_bb calculateIDF_def idf_spec_def
      lookup0_def incr_each_def)

subsection \<open>Incremental update and rebuild\<close>

text \<open>
  C3. For every initial corpus and every new document, \<^verbatim>\<open>AddDocument\<close> on the calculator
  built from the corpus leaves the calculator that \<^verbatim>\<open>NewBM25Calculator\<close> builds from the
  corpus with the document appended; so scoring any query against any document index, or
  against any text, gives the same result (a score, or the same panic) with both.
\<close>

theorem AddDocument_then_score_eq_rebuild:
  "AddDocument lib (NewBM25Calculator lib docs) doc = NewBM25Calculator lib (docs @ [doc])
   \<and> calculateBM25Score lib (AddDocument lib (NewBM25Calculator lib docs) doc) queryWords docIndex
       = calculateBM25Score lib (NewBM25Calculator lib (docs @ [doc])) queryWords docIndex
   \<and> Calculate lib (AddDocument lib (NewBM25Calculator lib docs) doc) query
       = Calculate lib (NewBM25Calculator lib (docs @ [doc])) query
   \<and> CalculateQuerySimilarity lib (AddDocument lib (NewBM25Calculator lib docs) doc) query document
       = CalculateQuerySimilarity lib (NewBM25Calculator lib (docs @ [doc])) query document"
  by (simp only: AddDocument_New)

subsection \<open>Scores\<close>






lemma reachable_docLengths:
  "reachable lib calc \<Longrightarrow> docLengths calc = map (\<lambda>d. int (length (tokenize lib d))) (documents calc)"
  by (drule reachable_eq, erule ssubst) (simp add: NewBM25Calculator_eq)

lemma reachable_avgDocLength:
  "reachable lib calc \<Longrightarrow> avgDocLength calc =
     (if documents calc = [] then 0
      else real_of_int (sum_list (docLengths calc)) / real (length (documents calc)))"
  by (frule reachable_docLengths, drule reachable_eq, erule ssubst) (simp add: NewBM25Calculator_eq)






subsection \<open>The arguments of the logarithm and of the divisions\<close>

lemma lookup0_incr_each:
  "lookup0 (incr_each m ws) w = lookup0 m w + (if w \<in> set ws then 1 else 0)"
  by (simp add: incr_each_def lookup0_def)

lemma docFreq_bounds:
  "lookup0 m w \<le> lookup0 (foldl (\<lambda>m d. incr_each m (tokenize lib d)) m docs) w
   \<and> lookup0 (foldl (\<lambda>m d. incr_each m (tokenize lib d)) m docs) w \<le> lookup0 m w + int (length docs)"
proof (induction docs arbitrary: m)
  case Nil
  show ?case by simp
next
  case (Cons d docs)
  from Cons [of "incr_each m (tokenize lib d)"] show ?case
    by (simp add: lookup0_incr_each split: if_splits)
qed

text \<open>
  In a reachable calculator a document frequency lies between 0 and the number of
  documents, so the logarithm in \<^verbatim>\<open>calculateIDF\<close> is taken of a number that is at least
  one half.
\<close>

lemma reachable_docFreq_bounds:
  assumes "reachable lib calc"
  shows "0 \<le> lookup0 (docFreq calc) w" and "lookup0 (docFreq calc) w \<le> totalDocs calc"
proof -
  have eq: "docFreq calc = foldl (\<lambda>m d. incr_each m (tokenize lib d)) Map.empty (documents calc)"
           "totalDocs calc = int (length (documents calc))"
    by (subst reachable_eq [OF assms], simp add: NewBM25Calculator_eq)+
  from docFreq_bounds [of Map.empty w lib "documents calc"]
  show "0 \<le> lookup0 (docFreq calc) w" and "lookup0 (docFreq calc) w \<le> totalDocs calc"
    by (simp_all add: eq lookup0_def)
qed

lemma calculateIDF_log_argument:
  assumes "reachable lib calc" "totalDocs calc \<noteq> 0"
  shows "1 / 2 \<le> real_of_int (totalDocs calc -
           (if lookup0 (docFreq calc) w = 0 then 1 else lookup0 (docFreq calc) w)) + 0.5"
proof -
  have "0 \<le> totalDocs calc"
    using reachable_docFreq_bounds [OF assms(1), of w] by linarith
  with assms(2) have "1 \<le> totalDocs calc" by linarith
  then show ?thesis
    using reachable_docFreq_bounds(2) [OF assms(1), of w] by simp
qed

lemma elem_le_sum_list_int:
  fixes xs :: "int list"
  shows "\<forall>x \<in> set xs. 0 \<le> x \<Longrightarrow> y \<in> set xs \<Longrightarrow> y \<le> sum_list xs"
proof (induction xs)
  case Nil
  then show ?case by simp
next
  case (Cons x xs)
  have "0 \<le> sum_list xs" using Cons.prems(1) by (intro sum_list_nonneg) simp
  then show ?case using Cons by auto
qed

text \<open>
  When a word of the query occurs in the document, the document is not empty and the
  average length, by which the loop divides, is positive.
\<close>

lemma reachable_avgDocLength_positive:
  assumes "reachable lib calc" "i < length (documents calc)"
      and "w \<in> set (tokenize lib (documents calc ! i))"
  shows "0 < avgDocLength calc"
proof -
  let ?lens = "map (\<lambda>d. int (length (tokenize lib d))) (documents calc)"
  have "tokenize lib (documents calc ! i) \<noteq> []" using assms(3) by auto
  then have "1 \<le> int (length (tokenize lib (documents calc ! i)))"
    by (cases "tokenize lib (documents calc ! i)") simp_all
  moreover have "int (length (tokenize lib (documents calc ! i))) \<le> sum_list ?lens"
    using assms(2) by (intro elem_le_sum_list_int) auto
  ultimately have "0 < sum_list ?lens" by linarith
  moreover have "documents calc \<noteq> []" using assms(2) by auto
  ultimately show ?thesis
    by (simp add: reachable_avgDocLength [OF assms(1)] reachable_docLengths [OF assms(1)])
qed

lemma score_denominator_positive:
  fixes k1 b avgLength tf :: real and docLength :: int
  assumes "0 \<le> k1" "0 \<le> b" "b \<le> 1" "0 \<le> docLength" "0 \<le> avgLength" "0 < tf"
  shows "0 < tf + k1 * (1 - b + b * real_of_int docLength / avgLength)"
proof -
  have "0 \<le> b * real_of_int docLength / avgLength" using assms by simp
  then have "0 \<le> 1 - b + b * real_of_int docLength / avgLength" using assms by simp
  then have "0 \<le> k1 * (1 - b + b * real_of_int docLength / avgLength)" using assms by simp
  then show ?thesis using assms(6) by linarith
qed

subsection \<open>Keywords\<close>

lemma mset_sift_left: "mset (sift_left lt ys x) = add_mset x (mset ys)"
  by (induction ys) simp_all

lemma set_sift_left: "set (sift_left lt ys x) = insert x (set ys)"
  by (induction ys) auto

lemma sorted_sift_left:
  "sorted_wrt (\<lambda>p q. snd p \<le> snd q) ys \<Longrightarrow>
   sorted_wrt (\<lambda>p q. snd p \<le> snd q) (sift_left score_greater ys (x :: wordScore))"
  by (induction ys) (auto simp: set_sift_left score_greater_def)

lemma mset_foldl_sift: "mset (foldl (sift_left lt) acc xs) = mset acc + mset xs"
  by (induction xs arbitrary: acc) (simp_all add: mset_sift_left)

lemma sorted_foldl_sift:
  "sorted_wrt (\<lambda>p q. snd p \<le> snd q) acc \<Longrightarrow>
   sorted_wrt (\<lambda>p q. snd p \<le> snd q) (foldl (sift_left score_greater) acc (xs :: wordScore list))"
  by (induction xs arbitrary: acc) (simp_all add: sorted_sift_left)

lemma insertionSort_ok: "sort_slice_ok insertionSort"
proof -
  have "sorted_wrt (\<lambda>p q. \<not> score_greater q p) (insertionSort score_greater xs)" for xs
    using sorted_foldl_sift [of "[]" xs]
    by (simp add: insertionSort_def sorted_wrt_rev score_greater_def not_less)
  then show ?thesis
    by (simp add: sort_slice_ok_def insertionSort_def mset_foldl_sift)
qed

lemma count_words_keys: "dom (count_words m ws) = set ws \<union> dom m"
proof (induction ws arbitrary: m)
  case Nil
  show ?case by simp
next
  case (Cons w ws)
  show ?case by (auto simp: Cons incr_def split: if_splits)
qed

lemma range_order_words:
  "range_order (count_words Map.empty ws) keys \<longleftrightarrow> distinct keys \<and> set keys = set ws"
  by (simp add: range_order_def count_words_keys)


text \<open>The entries collected for the keys, and what sorting them gives.\<close>

lemma ExtractKeywords_eq:
  "ExtractKeywords lib srt calc keys text topN =
     map fst (take (nat topN) (srt score_greater (map (\<lambda>w. (w, text_score lib calc text w)) keys)))"
  by (simp add: ExtractKeywords_def text_score_def Let_def)

lemma sorted_entries:
  fixes sc :: "string \<Rightarrow> real" and keys :: "string list"
  assumes ok: "sort_slice_ok srt"
  defines "S \<equiv> srt score_greater (map (\<lambda>w. (w, sc w)) keys)"
  shows "mset S = mset (map (\<lambda>w. (w, sc w)) keys)"
    and "sorted_wrt (\<lambda>p q. snd q \<le> snd p) S"
    and "set S = (\<lambda>w. (w, sc w)) ` set keys"
    and "mset (map fst S) = mset keys"
proof -
  show m: "mset S = mset (map (\<lambda>w. (w, sc w)) keys)"
    using ok by (simp add: sort_slice_ok_def S_def)
  show "sorted_wrt (\<lambda>p q. snd q \<le> snd p) S"
    using ok by (simp add: sort_slice_ok_def S_def score_greater_def not_less)
  show "set S = (\<lambda>w. (w, sc w)) ` set keys"
    using m by (metis set_map set_mset_mset)
  have "mset (map fst S) = image_mset fst (mset (map (\<lambda>w. (w, sc w)) keys))"
    using m by (metis mset_map)
  then show "mset (map fst S) = mset keys"
    by (simp add: image_mset.compositionality comp_def)
qed

lemma sorted_entries_unique:
  assumes "sort_slice_ok srt" "sort_slice_ok srt'"
      and "distinct keys" "distinct keys'" "set keys = set keys'"
      and inj: "inj_on sc (set keys)"
  shows "srt score_greater (map (\<lambda>w. (w, sc w)) keys)
         = srt' score_greater (map (\<lambda>w. (w, sc w)) keys')"
proof -
  let ?S = "srt score_greater (map (\<lambda>w. (w, sc w)) keys)"
  let ?S' = "srt' score_greater (map (\<lambda>w. (w, sc w)) keys')"
  let ?f = "\<lambda>p :: wordScore. - snd p"
  note a = sorted_entries [OF assms(1), of sc keys]
  note b = sorted_entries [OF assms(2), of sc keys']
  have sets: "set ?S = set ?S'" using a(3) b(3) assms(5) by simp
  have injf: "inj_on ?f (set ?S)"
    using inj by (auto simp: a(3) inj_on_def)
  have dS: "distinct ?S"
    using a(4) assms(3) by (metis distinct_map mset_eq_imp_distinct_iff)
  have dS': "distinct ?S'"
    using b(4) assms(4) by (metis distinct_map mset_eq_imp_distinct_iff)
  have "map ?f ?S = map ?f ?S'"
  proof (rule sorted_distinct_set_unique)
    show "sorted (map ?f ?S)" using a(2) by (simp add: sorted_map)
    show "sorted (map ?f ?S')" using b(2) by (simp add: sorted_map)
    show "distinct (map ?f ?S)" using dS injf by (simp add: distinct_map)
    show "distinct (map ?f ?S')" using dS' injf sets by (simp add: distinct_map)
    show "set (map ?f ?S) = set (map ?f ?S')" using sets by simp
  qed
  moreover have "inj_on ?f (set ?S \<union> set ?S')" using injf sets by simp
  ultimately show ?thesis by (simp add: inj_on_map_eq_map)
qed

text \<open>
  C6 (amended). Whatever the order in which \<^verbatim>\<open>range\<close> visits the word frequencies and
  whatever correct sorting function \<^verbatim>\<open>sort.Slice\<close> is, \<^verbatim>\<open>ExtractKeywords\<close> returns at most
  \<open>topN\<close> distinct tokens of the text, in non-increasing order of score; and when no two
  distinct tokens of the text have the same score, every run on the same calculator
  returns the same sequence. Nothing fixes the order of tokens with equal scores.
\<close>

theorem ExtractKeywords_order:
  assumes "sort_slice_ok srt"
      and "range_order (count_words Map.empty (tokenize lib text)) keys"
  shows "length (ExtractKeywords lib srt calc keys text topN) \<le> nat topN
         \<and> distinct (ExtractKeywords lib srt calc keys text topN)
         \<and> set (ExtractKeywords lib srt calc keys text topN) \<subseteq> set (tokenize lib text)
         \<and> sorted_wrt (\<lambda>u v. text_score lib calc text v \<le> text_score lib calc text u)
              (ExtractKeywords lib srt calc keys text topN)
         \<and> (sort_slice_ok srt' \<and> range_order (count_words Map.empty (tokenize lib text)) keys'
              \<and> inj_on (text_score lib calc text) (set (tokenize lib text))
            \<longrightarrow> ExtractKeywords lib srt' calc keys' text topN
                = ExtractKeywords lib srt calc keys text topN)"
proof -
  let ?sc = "text_score lib calc text"
  let ?S = "srt score_greater (map (\<lambda>w. (w, ?sc w)) keys)"
  let ?r = "ExtractKeywords lib srt calc keys text topN"
  from assms(2) have k: "distinct keys" "set keys = set (tokenize lib text)"
    by (simp_all add: range_order_words)
  note a = sorted_entries [OF assms(1), of ?sc keys]
  have r: "?r = take (nat topN) (map fst ?S)"
    by (simp add: ExtractKeywords_eq take_map)
  have dm: "distinct (map fst ?S)"
    using a(4) k(1) by (metis mset_eq_imp_distinct_iff)
  have sm: "set (map fst ?S) = set keys"
    using a(4) by (metis set_mset_mset)
  have snd_eq: "snd p = ?sc (fst p)" if "p \<in> set ?S" for p
    using that by (auto simp: a(3))
  have "sorted_wrt (\<lambda>p q. ?sc (fst q) \<le> ?sc (fst p)) ?S"
    using a(2) by (rule sorted_wrt_mono_rel [rotated]) (simp add: snd_eq)
  then have so: "sorted_wrt (\<lambda>u v. ?sc v \<le> ?sc u) (map fst ?S)"
    by (simp add: sorted_wrt_map)
  have 1: "length ?r \<le> nat topN" by (simp add: r)
  have 2: "distinct ?r" using dm by (simp add: r distinct_take)
  have 3: "set ?r \<subseteq> set (tokenize lib text)"
    using set_take_subset [of "nat topN" "map fst ?S"] sm k(2) by (simp only: r)
  have 4: "sorted_wrt (\<lambda>u v. ?sc v \<le> ?sc u) ?r"
    using so by (simp only: r sorted_wrt_take)
  have 5: "ExtractKeywords lib srt' calc keys' text topN = ?r"
    if "sort_slice_ok srt'" "range_order (count_words Map.empty (tokenize lib text)) keys'"
       "inj_on ?sc (set (tokenize lib text))"
  proof -
    from that(2) have k': "distinct keys'" "set keys' = set (tokenize lib text)"
      by (simp_all add: range_order_words)
    have "srt' score_greater (map (\<lambda>w. (w, ?sc w)) keys') = ?S"
      using that(1) assms(1) k' k that(3)
      by (intro sorted_entries_unique) simp_all
    then show ?thesis by (simp add: ExtractKeywords_eq)
  qed
  show ?thesis using 1 2 3 4 5 by blast
qed


lemma tokenize_ascii_keywords:
  "tokenize ascii_lib ''aa bb'' = [''aa'', ''bb'']"
  "tokenize ascii_lib ''cc'' = [''cc'']"
  "tokenize ascii_lib ''aa aa bb'' = [''aa'', ''aa'', ''bb'']"
  by (simp_all add: tokenize_def ascii_lib_def lower_char_def)

lemma text_score_tie:
  "text_score ascii_lib (NewBM25Calculator ascii_lib [''aa bb'', ''cc'']) ''aa bb'' ''aa''
   = text_score ascii_lib (NewBM25Calculator ascii_lib [''aa bb'', ''cc'']) ''aa bb'' ''bb''"
  by (simp add: text_score_def keyword_score_def NewBM25Calculator_eq tokenize_ascii_keywords
        calculateIDF_def lookup0_def incr_each_def incr_def)

text \<open>
  C6 as stated fails: the code has no rule for ties. On the corpus \<open>aa bb\<close>, \<open>cc\<close> the
  tokens \<open>aa\<close> and \<open>bb\<close> of the text \<open>aa bb\<close> have the same score; a run in which
  \<^verbatim>\<open>range\<close> visits \<open>aa\<close> first returns \<open>aa\<close> as the first keyword, a run in which it
  visits \<open>bb\<close> first returns \<open>bb\<close> (the insertion sort that \<^verbatim>\<open>sort.Slice\<close> runs on two
  elements swaps nothing).
\<close>

theorem ExtractKeywords_tie_counterexample:
  "range_order (count_words Map.empty (tokenize ascii_lib ''aa bb'')) [''aa'', ''bb'']
   \<and> range_order (count_words Map.empty (tokenize ascii_lib ''aa bb'')) [''bb'', ''aa'']
   \<and> ExtractKeywords ascii_lib insertionSort (NewBM25Calculator ascii_lib [''aa bb'', ''cc''])
        [''aa'', ''bb''] ''aa bb'' 1 = [''aa'']
   \<and> ExtractKeywords ascii_lib insertionSort (NewBM25Calculator ascii_lib [''aa bb'', ''cc''])
        [''bb'', ''aa''] ''aa bb'' 1 = [''bb'']"
proof -
  have r: "range_order (count_words Map.empty (tokenize ascii_lib ''aa bb'')) [''aa'', ''bb'']"
          "range_order (count_words Map.empty (tokenize ascii_lib ''aa bb'')) [''bb'', ''aa'']"
    unfolding range_order_words by (auto simp: tokenize_ascii_keywords)
  have e: "ExtractKeywords ascii_lib insertionSort (NewBM25Calculator ascii_lib [''aa bb'', ''cc''])
        [''aa'', ''bb''] ''aa bb'' 1 = [''aa'']"
       "ExtractKeywords ascii_lib insertionSort (NewBM25Calculator ascii_lib [''aa bb'', ''cc''])
        [''bb'', ''aa''] ''aa bb'' 1 = [''bb'']"
    by (simp_all add: ExtractKeywords_eq insertionSort_def score_greater_def text_score_tie)
  show ?thesis using r e by blast
qed

lemma text_score_no_tie:
  "text_score ascii_lib (NewBM25Calculator ascii_lib [''aa bb'', ''cc'']) ''aa aa bb'' ''aa''
   \<noteq> text_score ascii_lib (NewBM25Calculator ascii_lib [''aa bb'', ''cc'']) ''aa aa bb'' ''bb''"
  by (simp add: text_score_def keyword_score_def NewBM25Calculator_eq tokenize_ascii_keywords
        calculateIDF_def lookup0_def incr_each_def incr_def)

theorem ExtractKeywords_order_witness:
  "sort_slice_ok insertionSort
   \<and> range_order (count_words Map.empty (tokenize ascii_lib ''aa aa bb'')) [''aa'', ''bb'']
   \<and> range_order (count_words Map.empty (tokenize ascii_lib ''aa aa bb'')) [''bb'', ''aa'']
   \<and> inj_on (text_score ascii_lib (NewBM25Calculator ascii_lib [''aa bb'', ''cc'']) ''aa aa bb'')
        (set (tokenize ascii_lib ''aa aa bb''))
   \<and> ExtractKeywords ascii_lib insertionSort (NewBM25Calculator ascii_lib [''aa bb'', ''cc''])
        [''bb'', ''aa''] ''aa aa bb'' 2
     = ExtractKeywords ascii_lib insertionSort (NewBM25Calculator ascii_lib [''aa bb'', ''cc''])
        [''aa'', ''bb''] ''aa aa bb'' 2
   \<and> length (ExtractKeywords ascii_lib insertionSort
        (NewBM25Calculator ascii_lib [''aa bb'', ''cc'']) [''aa'', ''bb''] ''aa aa bb'' 2) \<le> 2"
proof -
  let ?C = "NewBM25Calculator ascii_lib [''aa bb'', ''cc'']"
  have r: "range_order (count_words Map.empty (tokenize ascii_lib ''aa aa bb'')) [''aa'', ''bb'']"
          "range_order (count_words Map.empty (tokenize ascii_lib ''aa aa bb'')) [''bb'', ''aa'']"
    unfolding range_order_words by (auto simp: tokenize_ascii_keywords)
  have i: "inj_on (text_score ascii_lib ?C ''aa aa bb'') (set (tokenize ascii_lib ''aa aa bb''))"
    using text_score_no_tie by (auto simp: tokenize_ascii_keywords inj_on_def)
  from ExtractKeywords_order [OF insertionSort_ok r(1), of ?C 2 insertionSort "[''bb'', ''aa'']"]
       insertionSort_ok r i
  show ?thesis by simp
qed

lemma ExtractKeywords_no_tie_value:
  "ExtractKeywords ascii_lib insertionSort (NewBM25Calculator ascii_lib [''aa bb'', ''cc''])
        [''bb'', ''aa''] ''aa aa bb'' 2 = [''aa'', ''bb'']"
  using text_score_no_tie
  apply (simp add: ExtractKeywords_eq insertionSort_def score_greater_def)
  apply (simp add: text_score_def keyword_score_def NewBM25Calculator_eq tokenize_ascii_keywords
        calculateIDF_def lookup0_def incr_each_def incr_def)
  done

section \<open>Properties of the tool-call check\<close>

lemma lookup_bool_map_literal: "lookup_bool (map_literal names) k = (k \<in> set names)"
  by (induction names) (auto simp: lookup_bool_def map_literal_def)

lemma lookup_bool_in_list: "lookup_bool m k = in_list (Some m) k"
  by (auto simp: lookup_bool_def in_list_def split: option.splits)

lemma isModelSupportToolCall_literal_tables:
  "isModelSupportToolCall_literal (map_literal unsupportedToolCallModels_names)
       (map_literal supportedToolCallModels_names) modelName
   = (modelName \<in> set supportedToolCallModels_names \<and> modelName \<notin> set unsupportedToolCallModels_names)"
  by (auto simp: isModelSupportToolCall_literal_def lookup_bool_map_literal)

text \<open>
  C9. For every model name, \<^verbatim>\<open>isModelSupportToolCall\<close> returns true only if the name is in
  the supported list; a name in both lists yields false (the unsupported list is read
  first); a name in neither list yields false. This holds of the version that checks the
  maps for \<^verbatim>\<open>nil\<close> and of the version that reads the map literals.
\<close>

theorem isModelSupportToolCall_default_deny:
  "(isModelSupportToolCall unsupported supported modelName \<longrightarrow> in_list supported modelName)
   \<and> (in_list unsupported modelName \<and> in_list supported modelName
        \<longrightarrow> \<not> isModelSupportToolCall unsupported supported modelName)
   \<and> (\<not> in_list unsupported modelName \<and> \<not> in_list supported modelName
        \<longrightarrow> \<not> isModelSupportToolCall unsupported supported modelName)
   \<and> (isModelSupportToolCall_literal u s modelName \<longrightarrow> in_list (Some s) modelName)
   \<and> (in_list (Some u) modelName \<and> in_list (Some s) modelName
        \<longrightarrow> \<not> isModelSupportToolCall_literal u s modelName)
   \<and> (\<not> in_list (Some u) modelName \<and> \<not> in_list (Some s) modelName
        \<longrightarrow> \<not> isModelSupportToolCall_literal u s modelName)"
  by (auto simp: isModelSupportToolCall_def isModelSupportToolCall_literal_def lookup_bool_def
        in_list_def split: option.splits)

theorem isModelSupportToolCall_default_deny_witness:
  "in_list (Some [''m1'' \<mapsto> True, ''m2'' \<mapsto> True]) ''m1''
   \<and> in_list (Some [''m1'' \<mapsto> True]) ''m1''
   \<and> \<not> isModelSupportToolCall (Some [''m1'' \<mapsto> True]) (Some [''m1'' \<mapsto> True, ''m2'' \<mapsto> True]) ''m1''
   \<and> \<not> isModelSupportToolCall_literal [''m1'' \<mapsto> True] [''m1'' \<mapsto> True, ''m2'' \<mapsto> True] ''m1''
   \<and> \<not> in_list (Some [''m1'' \<mapsto> True, ''m2'' \<mapsto> True]) ''m3''
   \<and> \<not> isModelSupportToolCall (Some [''m1'' \<mapsto> True]) (Some [''m1'' \<mapsto> True, ''m2'' \<mapsto> True]) ''m3''
   \<and> \<not> isModelSupportToolCall None None ''m3''
   \<and> isModelSupportToolCall (Some [''m1'' \<mapsto> True]) (Some [''m1'' \<mapsto> True, ''m2'' \<mapsto> True]) ''m2''"
proof -
  let ?u = "[''m1'' \<mapsto> True]" and ?s = "[''m1'' \<mapsto> True, ''m2'' \<mapsto> True]"
  have a: "in_list (Some ?s) ''m1''" "in_list (Some ?u) ''m1''"
    by (simp_all add: in_list_def)
  have b: "\<not> in_list (Some ?s) ''m3''" "\<not> in_list (Some ?u) ''m3''" "\<not> in_list None ''m3''"
    by (simp_all add: in_list_def)
  have c: "isModelSupportToolCall (Some ?u) (Some ?s) ''m2''"
    by (simp add: isModelSupportToolCall_def lookup_bool_def)
  note t1 = isModelSupportToolCall_default_deny [of "Some ?u" "Some ?s" "''m1''" ?u ?s]
  note t3 = isModelSupportToolCall_default_deny [of "Some ?u" "Some ?s" "''m3''" ?u ?s]
  note t0 = isModelSupportToolCall_default_deny [of None None "''m3''" ?u ?s]
  show ?thesis using a b c t1 t3 t0 by blast
qed

text \<open>On the map literals of the first version.\<close>

lemma isModelSupportToolCall_literal_examples:
  "isModelSupportToolCall_literal (map_literal unsupportedToolCallModels_names)
       (map_literal supportedToolCallModels_names) ''gpt-4''"
  "\<not> isModelSupportToolCall_literal (map_literal unsupportedToolCallModels_names)
       (map_literal supportedToolCallModels_names) ''deepseek-r1''"
  "\<not> isModelSupportToolCall_literal (map_literal unsupportedToolCallModels_names)
       (map_literal supportedToolCallModels_names) ''my-model''"
  unfolding isModelSupportToolCall_literal_tables
  by (simp_all add: supportedToolCallModels_names_def unsupportedToolCallModels_names_def)

section \<open>Properties of the chat service\<close>

subsection \<open>The history filter\<close>

lemma subseq_map_nth:
  assumes "sorted ixs" "distinct ixs" "set ixs \<subseteq> {0..<length h}"
  shows "subseq (map (\<lambda>i. h ! i) ixs) h"
proof -
  let ?f = "filter (\<lambda>i. i \<in> set ixs) [0..<length h]"
  have "set ?f = set ixs" using assms(3) by auto
  moreover have "sorted ?f" "distinct ?f" by (simp_all add: sorted_wrt_filter)
  ultimately have "?f = ixs"
    using assms(1,2) by (intro sorted_distinct_set_unique)
  then have "subseq ixs [0..<length h]"
    by (metis subseq_filter_left)
  then have "subseq (map (\<lambda>i. h ! i) ixs) (map (\<lambda>i. h ! i) [0..<length h])"
    by (rule subseq_map)
  then show ?thesis by (simp add: map_nth)
qed

lemma sort_ranked_all:
  "sort (sort_key f [0..<n]) = [0..<n]"
  by (intro sorted_distinct_set_unique) simp_all

text \<open>
  C7. For every history, query and budget, the history filter returns a subsequence of
  the history, in its original order, of length at most the budget; when the budget is at
  least the length of the history, it returns the history unchanged.
\<close>

theorem HistoryFilter_subsequence:
  "subseq (HistoryFilter relevance history query budget) history
   \<and> length (HistoryFilter relevance history query budget) \<le> budget
   \<and> (length history \<le> budget \<longrightarrow> HistoryFilter relevance history query budget = history)"
proof -
  let ?ranked = "sort_key (\<lambda>i. - relevance query (history ! i)) [0..<length history]"
  let ?kept = "sort (take budget ?ranked)"
  have d: "distinct (take budget ?ranked)" by (simp add: distinct_take)
  have s: "set (take budget ?ranked) \<subseteq> {0..<length history}"
    using set_take_subset [of budget ?ranked] by simp
  have "subseq (map (\<lambda>i. history ! i) ?kept) history"
    using d s by (intro subseq_map_nth) simp_all
  moreover have "length (map (\<lambda>i. history ! i) ?kept) \<le> budget" by simp
  moreover have "map (\<lambda>i. history ! i) ?kept = history" if "length history \<le> budget"
    using that by (simp add: sort_ranked_all map_nth)
  ultimately show ?thesis by (simp add: HistoryFilter_def Let_def)
qed

theorem HistoryFilter_subsequence_witness:
  "length [UserMessage ''cat'', AssistantMessage ''dog'' [], UserMessage ''bird''] \<le> 5
   \<and> HistoryFilter (\<lambda>q m. if Content m = q then 1 else 0)
        [UserMessage ''cat'', AssistantMessage ''dog'' [], UserMessage ''bird''] ''bird'' 5
       = [UserMessage ''cat'', AssistantMessage ''dog'' [], UserMessage ''bird'']
   \<and> HistoryFilter (\<lambda>q m. if Content m = q then 1 else 0)
        [UserMessage ''cat'', AssistantMessage ''dog'' [], UserMessage ''bird''] ''bird'' 2
       = [UserMessage ''cat'', UserMessage ''bird'']
   \<and> subseq [UserMessage ''cat'', UserMessage ''bird'']
        [UserMessage ''cat'', AssistantMessage ''dog'' [], UserMessage ''bird'']"
proof -
  let ?h = "[UserMessage ''cat'', AssistantMessage ''dog'' [], UserMessage ''bird'']"
  let ?rel = "\<lambda>q m. if Content m = q then (1::real) else 0"
  have len: "length ?h \<le> 5" by simp
  have two: "HistoryFilter ?rel ?h ''bird'' 2 = [UserMessage ''cat'', UserMessage ''bird'']"
    by (simp add: HistoryFilter_def UserMessage_def AssistantMessage_def upt_rec Let_def)
  from HistoryFilter_subsequence [of ?rel ?h "''bird''" 5] len
  have all: "HistoryFilter ?rel ?h ''bird'' 5 = ?h" by blast
  from HistoryFilter_subsequence [of ?rel ?h "''bird''" 2]
  have sub: "subseq [UserMessage ''cat'', UserMessage ''bird''] ?h" by (simp only: two)
  show ?thesis using len all two sub by blast
qed

subsection \<open>ProcessUserInput\<close>

lemma collect_loop_eq:
  "collect_loop rd fullContent =
     (fullContent @ concat (map Content (pending rd)),
      rd\<lparr> pending := [], recvCalls := recvCalls rd + length (pending rd) + 1 \<rparr>)"
proof (induction "pending rd" arbitrary: rd fullContent)
  case Nil
  then show ?case
    by (subst collect_loop.simps) (simp add: Recv_def flip: Nil)
next
  case (Cons m ms)
  let ?rd' = "rd\<lparr> pending := ms, recvCalls := recvCalls rd + 1 \<rparr>"
  have r: "Recv rd = (Inr m, ?rd')"
    by (simp add: Recv_def flip: Cons(2))
  have "collect_loop rd fullContent = collect_loop ?rd' (fullContent @ Content m)"
    by (subst collect_loop.simps) (simp add: r)
  also have "\<dots> = ((fullContent @ Content m) @ concat (map Content ms),
      ?rd'\<lparr> pending := [], recvCalls := recvCalls ?rd' + length ms + 1 \<rparr>)"
    using Cons(1) [of ?rd' "fullContent @ Content m"] by simp
  finally show ?case by (simp flip: Cons(2))
qed

text \<open>
  C8. When a reply has been generated (the template and the agent succeeded) and saving
  the updated history fails, \<^verbatim>\<open>ProcessUserInput\<close> returns the accumulated text with a
  \<^verbatim>\<open>nil\<close> error; the failure is logged, and the values returned are the same whatever
  \<^verbatim>\<open>SaveChatHistory\<close> does.
\<close>

theorem ProcessUserInput_save_failure_nonfatal:
  assumes "prompt_of s userInput userID = Inr messages"
      and "Stream s messages = Inr rd"
      and "SaveChatHistory s userID
             (loaded_history s userID @
              [UserMessage userInput, AssistantMessage (concat (map Content (pending rd))) []])
           = Some err"
  shows "returned (ProcessUserInput s userInput userID) = (concat (map Content (pending rd)), None)
         \<and> err \<in> set (logged (ProcessUserInput s userInput userID))
         \<and> returned (ProcessUserInput (s\<lparr> SaveChatHistory := save \<rparr>) userInput userID)
             = returned (ProcessUserInput s userInput userID)"
  using assms
  by (auto simp: ProcessUserInput_def prompt_of_def loaded_history_def collect_loop_eq Let_def
      split: sum.splits option.splits)


theorem ProcessUserInput_save_failure_nonfatal_witness:
  "returned (ProcessUserInput
      \<lparr> LoadChatHistory = (\<lambda>userID. Inr []),
        SaveChatHistory = (\<lambda>userID h. Some ''cache unreachable''),
        FilterRelevantHistory = (\<lambda>h q n. h),
        Format = (\<lambda>vars. Inr [UserMessage ''hi'']),
        Stream = (\<lambda>msgs. Inr \<lparr> pending = [AssistantMessage ''Hel'' [], AssistantMessage ''lo'' []],
                                final = EOF, recvCalls = 0, closeCalls = 0 \<rparr>) \<rparr>
      ''hi'' ''u1'') = (''Hello'', None)"
proof -
  let ?rd = "\<lparr> pending = [AssistantMessage ''Hel'' [], AssistantMessage ''lo'' []],
               final = EOF, recvCalls = 0, closeCalls = 0 \<rparr>"
  let ?s = "\<lparr> LoadChatHistory = (\<lambda>userID. Inr []),
        SaveChatHistory = (\<lambda>userID h. Some ''cache unreachable''),
        FilterRelevantHistory = (\<lambda>h q n. h),
        Format = (\<lambda>vars. Inr [UserMessage ''hi'']),
        Stream = (\<lambda>msgs. Inr ?rd) \<rparr>"
  have p: "prompt_of ?s ''hi'' ''u1'' = Inr [UserMessage ''hi'']"
    by (simp add: prompt_of_def)
  have st: "Stream ?s [UserMessage ''hi''] = Inr ?rd" by simp
  have sv: "SaveChatHistory ?s ''u1''
             (loaded_history ?s ''u1'' @
              [UserMessage ''hi'', AssistantMessage (concat (map Content (pending ?rd))) []])
           = Some ''cache unreachable''" by simp
  from ProcessUserInput_save_failure_nonfatal [OF p st sv]
  show ?thesis by (simp add: AssistantMessage_def)
qed

subsection \<open>Pausing\<close>

lemma stream_step_paused:
  "foldl (stream_step cb) (Running rd fullContent) (replicate k (True, False)) = Running rd fullContent"
  by (induction k) simp_all

lemma main_step_paused:
  "foldl main_step (Streaming rd fullContent) (replicate k PausedThenPauseChan) = Streaming rd fullContent"
  by (induction k) simp_all

lemma stream_step_paused_any:
  "foldl (stream_step cb) st (replicate k (True, False)) = st"
proof (cases st)
  case (Running rd fullContent)
  then show ?thesis by (simp add: stream_step_paused)
qed (induction k; simp)+

lemma main_step_paused_any:
  "foldl main_step st (replicate k PausedThenPauseChan) = st"
proof (cases st)
  case (Streaming rd fullContent)
  then show ?thesis by (simp add: main_step_paused)
qed (induction k; simp)

text \<open>
  C5. While the loop finds the controller paused (and not stopped), it issues no
  \<^verbatim>\<open>Recv\<close> and appends nothing: after any number of such iterations the reader, with its
  count of \<^verbatim>\<open>Recv\<close> calls, and the accumulated text are what they were, and the loop
  is still running; the run as a whole is the run without these iterations. This holds
  of the loop of \<^verbatim>\<open>ProcessUserInputStream\<close> and of the loop of \<^verbatim>\<open>main\<close>.
\<close>

theorem paused_no_receive_no_append:
  "foldl (stream_step cb) (Running rd fullContent) (replicate k (True, False)) = Running rd fullContent
   \<and> stream_loop cb (before @ replicate k (True, False) @ after) rd0 = stream_loop cb (before @ after) rd0
   \<and> foldl main_step (Streaming rd fullContent) (replicate k PausedThenPauseChan) = Streaming rd fullContent
   \<and> main_stream_loop (obs @ replicate k PausedThenPauseChan @ obs') rd0 = main_stream_loop (obs @ obs') rd0"
  by (simp add: stream_step_paused main_step_paused stream_loop_def main_stream_loop_def
        stream_step_paused_any main_step_paused_any)

subsection \<open>Closing the stream\<close>

lemma closeCalls_Recv: "closeCalls (snd (Recv rd)) = closeCalls rd"
  by (simp add: Recv_def split: list.splits)

lemma closeCalls_stream_step:
  "closeCalls (reader_of (stream_step cb st ctl)) = closeCalls (reader_of st)"
proof (cases st)
  case (Running rd fullContent)
  obtain p q where ctl: "ctl = (p, q)" by (cases ctl)
  obtain r rd' where r: "Recv rd = (r, rd')" by (cases "Recv rd")
  with closeCalls_Recv [of rd] have "closeCalls rd' = closeCalls rd" by simp
  then show ?thesis
    using Running ctl r by (auto split: sum.splits option.splits)
qed simp_all

lemma closeCalls_stream_loop:
  "closeCalls (reader_of (foldl (stream_step cb) st controls)) = closeCalls (reader_of st)"
  by (induction controls arbitrary: st) (simp_all add: closeCalls_stream_step)

lemma ProcessUserInputStream_closes_once:
  assumes "prompt_of s userInput userID = Inr messages"
      and "Stream s messages = Inr rd"
      and "ProcessUserInputStream s userInput userID cb controls = Some out"
  shows "\<exists>rd'. reader_after out = Some rd' \<and> closeCalls rd' = closeCalls rd + 1"
proof -
  from closeCalls_stream_loop [of cb "Running rd []" controls]
  have c: "closeCalls (reader_of (stream_loop cb controls rd)) = closeCalls rd"
    by (simp add: stream_loop_def)
  show ?thesis
    using assms c
    by (cases "stream_loop cb controls rd")
       (auto simp: ProcessUserInputStream_def prompt_of_def loaded_history_def Let_def Close_def
             split: sum.splits)
qed

text \<open>
  The increments \<open>Hel\<close>, \<open>lo\<close>, \<open> world\<close> with a stop after the first one: the text is
  \<open>Hel\<close> and the reader has been closed once. With no command the text is
  \<open>Hello world\<close>, and the reader has been closed once.
\<close>

lemma ProcessUserInputStream_examples:
  "ProcessUserInputStream
      \<lparr> LoadChatHistory = (\<lambda>userID. Inr []),
        SaveChatHistory = (\<lambda>userID h. None),
        FilterRelevantHistory = (\<lambda>h q n. h),
        Format = (\<lambda>vars. Inr [UserMessage ''hi'']),
        Stream = (\<lambda>msgs. Inr \<lparr> pending = [AssistantMessage ''Hel'' [], AssistantMessage ''lo'' [],
                                           AssistantMessage '' world'' []],
                                final = EOF, recvCalls = 0, closeCalls = 0 \<rparr>) \<rparr>
      ''hi'' ''u1'' (\<lambda>content isToolCall. None) [(False, False), (False, True)]
   = Some \<lparr> returned = (''Hel'', None),
            reader_after = Some \<lparr> pending = [AssistantMessage ''lo'' [], AssistantMessage '' world'' []],
                                  final = EOF, recvCalls = 1, closeCalls = 1 \<rparr>,
            saved = Some [UserMessage ''hi'', AssistantMessage ''Hel'' []],
            logged = [] \<rparr>"
  "ProcessUserInputStream
      \<lparr> LoadChatHistory = (\<lambda>userID. Inr []),
        SaveChatHistory = (\<lambda>userID h. None),
        FilterRelevantHistory = (\<lambda>h q n. h),
        Format = (\<lambda>vars. Inr [UserMessage ''hi'']),
        Stream = (\<lambda>msgs. Inr \<lparr> pending = [AssistantMessage ''Hel'' [], AssistantMessage ''lo'' [],
                                           AssistantMessage '' world'' []],
                                final = EOF, recvCalls = 0, closeCalls = 0 \<rparr>) \<rparr>
      ''hi'' ''u1'' (\<lambda>content isToolCall. None)
      [(False, False), (False, False), (False, False), (False, False)]
   = Some \<lparr> returned = (''Hello world'', None),
            reader_after = Some \<lparr> pending = [], final = EOF, recvCalls = 4, closeCalls = 1 \<rparr>,
            saved = Some [UserMessage ''hi'', AssistantMessage ''Hello world'' []],
            logged = [] \<rparr>"
  by (simp_all add: ProcessUserInputStream_def stream_loop_def Recv_def Close_def
        AssistantMessage_def UserMessage_def)

lemma ProcessUserInput_closes_once:
  assumes "prompt_of s userInput userID = Inr messages"
      and "Stream s messages = Inr rd"
  shows "\<exists>rd'. reader_after (ProcessUserInput s userInput userID) = Some rd'
               \<and> closeCalls rd' = closeCalls rd + 1"
  using assms
  by (auto simp: ProcessUserInput_def prompt_of_def loaded_history_def collect_loop_eq Let_def
        Close_def split: sum.splits)

lemma main_loop_never_ends_without_stop:
  "StopReady \<notin> set observations \<Longrightarrow> PausedThenStopChan \<notin> set observations \<Longrightarrow>
   \<exists>rd' fullContent'. foldl main_step (Streaming rd fullContent) observations = Streaming rd' fullContent'"
proof (induction observations arbitrary: rd fullContent)
  case Nil
  then show ?case by simp
next
  case (Cons ob obs)
  then show ?case
    by (cases ob; cases "Recv rd") (auto split: sum.splits)
qed

text \<open>
  C2. In \<^verbatim>\<open>main\<close> a stop closes the reader in the stop branch, and the
  \<^verbatim>\<open>defer streamReader.Close()\<close> registered in the loop of the turns closes it again
  when \<^verbatim>\<open>main\<close> returns: with the increments \<open>Hel\<close>, \<open>lo\<close>, \<open> world\<close> and a stop after
  the first one, the reader ends with two calls of \<^verbatim>\<open>Close\<close>. And after the end of the
  stream the loop does not end by itself: five iterations on the same stream with no
  stop leave it streaming, with no call of \<^verbatim>\<open>Close\<close>.
\<close>

theorem main_stop_closes_twice:
  "main_run [(''hi'', Inr \<lparr> pending = [AssistantMessage ''Hel'' [], AssistantMessage ''lo'' [],
                                       AssistantMessage '' world'' []],
                            final = EOF, recvCalls = 0, closeCalls = 0 \<rparr>,
              [NotPaused, StopReady])]
   = Some ([UserMessage ''hi'', AssistantMessage ''Hel'' []],
           [\<lparr> pending = [AssistantMessage ''lo'' [], AssistantMessage '' world'' []],
              final = EOF, recvCalls = 1, closeCalls = 2 \<rparr>])
   \<and> main_stream_loop [NotPaused, NotPaused, NotPaused, NotPaused, NotPaused]
         \<lparr> pending = [AssistantMessage ''Hel'' [], AssistantMessage ''lo'' [],
                      AssistantMessage '' world'' []],
           final = EOF, recvCalls = 0, closeCalls = 0 \<rparr>
       = Streaming \<lparr> pending = [], final = EOF, recvCalls = 5, closeCalls = 0 \<rparr> ''Hello world''"
  by (simp add: main_run_def main_stream_loop_def Recv_def Close_def AssistantMessage_def)

section \<open>Properties of the base64 encoder\<close>

lemma m6: "(0x3F :: 64 word) = mask 6" by (simp add: mask_eq_exp_minus_1)

lemma total_sextet1: "drop_bit 18 (total_of x y z) AND 0x3F = ucast (sextet1 x)"
  unfolding m6 total_of_def sextet1_def
  by (rule bit_word_eqI) (auto simp: bit_simps dest: bit_imp_le_length)

lemma total_sextet2: "drop_bit 12 (total_of x y z) AND 0x3F = ucast (sextet2 x y)"
  unfolding m6 total_of_def sextet2_def
  by (rule bit_word_eqI) (auto simp: bit_simps dest: bit_imp_le_length)

lemma total_sextet3: "drop_bit 6 (total_of x y z) AND 0x3F = ucast (sextet3 y z)"
  unfolding m6 total_of_def sextet3_def
  by (rule bit_word_eqI) (auto simp: bit_simps dest: bit_imp_le_length)

lemma total_sextet4: "total_of x y z AND 0x3F = ucast (sextet4 z)"
  unfolding m6 total_of_def sextet4_def
  by (rule bit_word_eqI) (auto simp: bit_simps dest: bit_imp_le_length)

lemma unat_ucast_8_64: "unat (ucast (w :: 8 word) :: 64 word) = unat w"
  by (simp add: unsigned_ucast_eq take_bit_nat_eq_self_iff order_less_trans [OF unsigned_less])

lemma byte_eqI:
  fixes a b :: "8 word"
  assumes "bit a 0 = bit b 0" "bit a 1 = bit b 1" "bit a 2 = bit b 2" "bit a 3 = bit b 3"
          "bit a 4 = bit b 4" "bit a 5 = bit b 5" "bit a 6 = bit b 6" "bit a 7 = bit b 7"
  shows "a = b"
proof (rule bit_word_eqI)
  fix n assume "n < LENGTH(8)"
  then have "n \<in> {0, 1, 2, 3, 4, 5, 6, 7}"
    by simp arith
  then show "bit a n = bit b n" using assms by auto
qed

lemma decode_sextets1: "push_bit 2 (sextet1 x) OR drop_bit 4 (sextet2 x y) = x"
  unfolding sextet1_def sextet2_def
  by (rule byte_eqI) (simp_all add: bit_simps)

lemma decode_sextets2: "push_bit 4 (sextet2 x y) OR drop_bit 2 (sextet3 y z) = y"
  unfolding sextet3_def sextet2_def
  by (rule byte_eqI) (simp_all add: bit_simps)

lemma decode_sextets3: "push_bit 6 (sextet3 y z) OR sextet4 z = z"
  unfolding sextet3_def sextet4_def
  by (rule byte_eqI) (simp_all add: bit_simps)

lemma not_bit_byte: "8 \<le> n \<Longrightarrow> \<not> bit (x :: 8 word) n"
  by (auto dest: bit_imp_le_length)

lemma take_bit_sextet1: "take_bit 6 (sextet1 x) = sextet1 x"
  unfolding sextet1_def by (rule byte_eqI) (simp_all add: bit_simps not_bit_byte)

lemma take_bit_sextet2: "take_bit 6 (sextet2 x y) = sextet2 x y"
  unfolding sextet2_def by (rule byte_eqI) (simp_all add: bit_simps not_bit_byte)

lemma take_bit_sextet3: "take_bit 6 (sextet3 y z) = sextet3 y z"
  unfolding sextet3_def by (rule byte_eqI) (simp_all add: bit_simps not_bit_byte)

lemma take_bit_sextet4: "take_bit 6 (sextet4 z) = sextet4 z"
  unfolding sextet4_def by (rule byte_eqI) (simp_all add: bit_simps not_bit_byte)

lemmas take_bit_sextet = take_bit_sextet1 take_bit_sextet2 take_bit_sextet3 take_bit_sextet4

lemma unat_sextet_less:
  "unat (sextet1 x) < 64" "unat (sextet2 x y) < 64" "unat (sextet3 y z) < 64" "unat (sextet4 z) < 64"
proof -
  have *: "unat s < 64" if "take_bit 6 s = s" for s :: "8 word"
  proof -
    have "unat s = take_bit 6 (unat s)"
      using that by (metis unsigned_take_bit_eq)
    also have "\<dots> < 2 ^ 6" by (rule take_bit_nat_less_exp)
    finally show ?thesis by simp
  qed
  show "unat (sextet1 x) < 64" "unat (sextet2 x y) < 64" "unat (sextet3 y z) < 64" "unat (sextet4 z) < 64"
    by (rule *, rule take_bit_sextet1) (rule *, rule take_bit_sextet2, rule *, rule take_bit_sextet3, rule *, rule take_bit_sextet4)
qed


lemma code_sextets:
  "base64Chars ! unat (drop_bit 18 (total_of x y z) AND 0x3F) = alphabet_char (sextet1 x)"
  "base64Chars ! unat (drop_bit 12 (total_of x y z) AND 0x3F) = alphabet_char (sextet2 x y)"
  "base64Chars ! unat (drop_bit 6 (total_of x y z) AND 0x3F) = alphabet_char (sextet3 y z)"
  "base64Chars ! unat (total_of x y z AND 0x3F) = alphabet_char (sextet4 z)"
  by (simp_all only: total_sextet1 total_sextet2 total_sextet3 total_sextet4 unat_ucast_8_64
        alphabet_char_def)

lemma base64Encode_loop_step:
  assumes "i < length data"
  shows "base64Encode_loop data i result =
     base64Encode_loop data (i + 3)
       (result @ [alphabet_char (sextet1 (triplet_at data i 0)),
                  alphabet_char (sextet2 (triplet_at data i 0) (triplet_at data i 1)),
                  if i + 1 < length data
                  then alphabet_char (sextet3 (triplet_at data i 1) (triplet_at data i 2))
                  else CHR ''='',
                  if i + 2 < length data then alphabet_char (sextet4 (triplet_at data i 2))
                  else CHR ''=''])"
  apply (subst base64Encode_loop.simps)
  apply (simp only: assms if_True Let_def)
  apply (simp only: total_of_def [symmetric] code_sextets)
  apply auto
  done

lemma base64Encode_loop_done:
  "length data \<le> i \<Longrightarrow> base64Encode_loop data i result = result"
  by (subst base64Encode_loop.simps) simp

lemma drop_eq_Cons_nth: "drop i xs = y # ys \<Longrightarrow> i < length xs \<and> xs ! i = y \<and> drop (Suc i) xs = ys"
  by (metis Cons_nth_drop_Suc drop_eq_Nil2 list.distinct(1) list.inject not_le)

lemma base64Encode_loop_eq:
  "base64Encode_loop data i result = result @ rfc4648_encode (drop i data)"
proof (induction "drop i data" arbitrary: i result rule: rfc4648_encode.induct)
  case 1
  then show ?case by (simp add: base64Encode_loop_done)
next
  case (2 x)
  from drop_eq_Cons_nth [OF 2 [symmetric]]
  have i: "i < length data" and x: "data ! i = x" and r: "drop (Suc i) data = []" by auto
  from r have len: "length data \<le> Suc i" by simp
  show ?case
    using len x i
    by (simp add: base64Encode_loop_step base64Encode_loop_done triplet_at_def sextets_def 2 [symmetric])
next
  case (3 x y)
  from drop_eq_Cons_nth [OF 3 [symmetric]]
  have i: "i < length data" and x: "data ! i = x" and r: "drop (Suc i) data = [y]" by auto
  from drop_eq_Cons_nth [OF r]
  have i1: "Suc i < length data" and y: "data ! Suc i = y" and r2: "drop (Suc (Suc i)) data = []" by auto
  from r2 have len: "length data \<le> Suc (Suc i)" by simp
  show ?case
    using len x y i i1
    by (simp add: base64Encode_loop_step base64Encode_loop_done triplet_at_def sextets_def 3 [symmetric])
next
  case (4 x y z rest)
  from drop_eq_Cons_nth [OF 4(2) [symmetric]]
  have i: "i < length data" and x: "data ! i = x" and r: "drop (Suc i) data = y # z # rest" by auto
  from drop_eq_Cons_nth [OF r]
  have i1: "Suc i < length data" and y: "data ! Suc i = y" and r2: "drop (Suc (Suc i)) data = z # rest" by auto
  from drop_eq_Cons_nth [OF r2]
  have i2: "Suc (Suc i) < length data" and z: "data ! Suc (Suc i) = z" and r3: "drop (i + 3) data = rest"
    by (auto simp: numeral_3_eq_3)
  have IH: "base64Encode_loop data (i + 3) res = res @ rfc4648_encode rest" for res
    using 4(1) [of "i + 3" res] r3 by simp
  show ?case
    using x y z i i1 i2
    by (simp add: base64Encode_loop_step [OF i] IH triplet_at_def sextets_def 4(2) [symmetric])
qed

lemma base64Encode_eq: "base64Encode data = rfc4648_encode data"
  by (simp add: base64Encode_def base64Encode_loop_eq)

lemma index_of_nth:
  "distinct xs \<Longrightarrow> n < length xs \<Longrightarrow> index_of (xs ! n) xs = Some n"
proof (induction xs arbitrary: n)
  case Nil
  then show ?case by simp
next
  case (Cons d ds)
  show ?case
  proof (cases n)
    case 0
    then show ?thesis by simp
  next
    case (Suc m)
    with Cons.prems have "ds ! m \<noteq> d" by auto
    with Suc Cons show ?thesis by simp
  qed
qed

lemma base64Chars_facts:
  "distinct base64Chars" "length base64Chars = 64" "CHR ''='' \<notin> set base64Chars"
  by (simp_all add: base64Chars_def)

lemma index_of_alphabet_char:
  "unat s < 64 \<Longrightarrow> index_of (alphabet_char s) base64Chars = Some (unat s)"
  by (simp add: alphabet_char_def index_of_nth base64Chars_facts)

lemma alphabet_char_not_pad: "unat s < 64 \<Longrightarrow> alphabet_char s \<noteq> CHR ''=''"
proof
  assume s: "unat s < 64" and eq: "alphabet_char s = CHR ''=''"
  have "base64Chars ! unat s \<in> set base64Chars"
    using s by (intro nth_mem) (simp add: base64Chars_facts(2))
  then show False
    using eq base64Chars_facts(3) by (simp add: alphabet_char_def)
qed

lemmas sextet_index =
  index_of_alphabet_char [OF unat_sextet_less(1)] index_of_alphabet_char [OF unat_sextet_less(2)]
  index_of_alphabet_char [OF unat_sextet_less(3)] index_of_alphabet_char [OF unat_sextet_less(4)]

lemmas sextet_not_pad =
  alphabet_char_not_pad [OF unat_sextet_less(1)] alphabet_char_not_pad [OF unat_sextet_less(2)]
  alphabet_char_not_pad [OF unat_sextet_less(3)] alphabet_char_not_pad [OF unat_sextet_less(4)]

lemma decode_group_sextets:
  "decode_group (unat (sextet1 x)) (unat (sextet2 x y)) (unat (sextet3 y z)) (unat (sextet4 z)) = [x, y, z]"
proof -
  have inv: "of_nat (unat w) = w" for w :: "8 word" by simp
  show ?thesis
    by (simp only: decode_group_def Let_def inv decode_sextets1 decode_sextets2 decode_sextets3)
qed

lemma length_rfc4648_encode: "length (rfc4648_encode data) = 4 * ((length data + 2) div 3)"
proof (induction data rule: rfc4648_encode.induct)
  case (4 x y z rest)
  have "(length (x # y # z # rest) + 2) div 3 = (length rest + 2) div 3 + 1"
    by simp
  then show ?case using 4 by (simp add: sextets_def del: length_Cons)
qed (simp_all add: sextets_def)

lemma rfc4648_decode_encode: "rfc4648_decode (rfc4648_encode data) = Some data"
proof (induction data rule: rfc4648_encode.induct)
  case 1
  show ?case by simp
next
  case (2 x)
  have "take 1 (decode_group (unat (sextet1 x)) (unat (sextet2 x 0)) 0 0) = [x]"
    using decode_sextets1 [of x 0] by (simp add: decode_group_def)
  then show ?case
    by (simp add: sextets_def sextet_index)
next
  case (3 x y)
  have "take 2 (decode_group (unat (sextet1 x)) (unat (sextet2 x y)) (unat (sextet3 y 0)) 0) = [x, y]"
    using decode_sextets1 [of x y] decode_sextets2 [of x y 0] by (simp add: decode_group_def)
  then show ?case
    by (simp add: sextets_def sextet_index sextet_not_pad)
next
  case (4 x y z rest)
  show ?case
  proof (cases "rfc4648_encode rest")
    case Nil
    then have "rest = []" using length_rfc4648_encode [of rest] by (cases rest) auto
    then show ?thesis
      by (simp add: sextets_def sextet_index sextet_not_pad decode_group_sextets)
  next
    case (Cons c cs)
    then show ?thesis using 4
      by (simp add: sextets_def sextet_index decode_group_sextets)
  qed
qed

lemma padding_rfc4648_encode:
  "dropWhile (\<lambda>c. c \<noteq> CHR ''='') (rfc4648_encode data)
   = replicate ((3 - length data mod 3) mod 3) CHR ''=''"
proof (induction data rule: rfc4648_encode.induct)
  case (4 x y z rest)
  have "length (x # y # z # rest) mod 3 = length rest mod 3" by simp
  then show ?case using 4 by (simp add: sextets_def sextet_not_pad del: length_Cons)
qed (simp_all add: sextets_def sextet_not_pad numeral_2_eq_2)

text \<open>
  C10. For every input of n bytes, \<^verbatim>\<open>base64Encode\<close> returns the base64 encoding of
  RFC 4648: its output has length 4 \<open>\<cdot>\<close> ceiling(n/3); from the first \<open>=\<close> on it consists of
  padding only, two \<open>=\<close> after a final group of one byte, one after a final group of two
  bytes and none otherwise; and the reference decoder gives the input back.
\<close>

theorem base64Encode_rfc4648:
  "base64Encode data = rfc4648_encode data
   \<and> length (base64Encode data) = 4 * ((length data + 2) div 3)
   \<and> dropWhile (\<lambda>c. c \<noteq> CHR ''='') (base64Encode data)
       = replicate ((3 - length data mod 3) mod 3) CHR ''=''
   \<and> rfc4648_decode (base64Encode data) = Some data"
  by (simp add: base64Encode_eq length_rfc4648_encode padding_rfc4648_encode rfc4648_decode_encode)

text \<open>The bytes of \<open>hello\<close>.\<close>

lemma base64Encode_hello:
  "base64Encode [104, 101, 108, 108, 111] = ''aGVsbG8=''"
  by (simp add: base64Encode_eq sextets_def alphabet_char_def sextet1_def sextet2_def sextet3_def sextet4_def base64Chars_def)

end
